theory Spec2Isabelle
  imports Main
begin

section \<open>Data model (App.tsx and services/geminiService.ts)\<close>

text \<open>
  JavaScript strings are modelled as \<open>string\<close>: every \<open>char\<close> stands for one UTF-16
  code unit below 256. Optional and nullable fields (\<open>error?: string | null\<close>) are
  options; no code modelled here tells an absent field from a null one.
\<close>

record character =
  c_id :: nat
  name :: string
  imagePreview :: "string option"
  originalImageBase64 :: "string option"
  originalImageMimeType :: "string option"
  description :: "string option"
  detectedImageStyle :: "string option"
  isDescribing :: bool

text \<open>\<open>AppStoryboardScene\<close>: a \<open>StoryboardScene\<close> with the flags of the application.\<close>

record scene =
  src :: "string option"
  prompt :: string
  error :: "string option"
  isCameraAngleFor :: "nat option"
  isRegenerating :: "bool option"
  isGeneratingAngles :: "bool option"
  isEditing :: "bool option"
  previousSrc :: "string option"

record videoClip =
  videoUrl :: "string option"
  audioUrl :: "string option"
  videoObject :: string
  audioBase64 :: "string option"

datatype video_status = Idle | Loading | Success | Failed

datatype voiceover_mode = Tts | Upload

record videoState =
  status :: video_status
  clips :: "videoClip list"
  currentClipIndex :: nat
  vs_error :: "string option"
  loadingMessage :: string
  showScriptInput :: bool
  scriptPrompt :: string
  voiceoverMode :: voiceover_mode
  voiceoverFile :: "string option"
  speaker :: string
  cameraMovement :: string

record generationItem =
  gi_id :: nat
  gi_prompt :: string
  imageSet :: "scene list"
  videoStates :: "videoState list"
  aspectRatio :: string
  imageStyle :: string
  genre :: string
  characters :: "character list"
  imageModel :: string

definition getInitialVideoState :: videoState where
  "getInitialVideoState =
     \<lparr>status = Idle, clips = [], currentClipIndex = 0, vs_error = None, loadingMessage = [],
      showScriptInput = False, scriptPrompt = [], voiceoverMode = Tts, voiceoverFile = None,
      speaker = ''Narrator'', cameraMovement = ''Static Hold''\<rparr>"

text \<open>A scene as a pipeline returns it: \<open>{ prompt, src, error }\<close>, every other field absent.\<close>

definition mk_scene :: "string \<Rightarrow> string option \<Rightarrow> string option \<Rightarrow> scene" where
  "mk_scene p s e =
     \<lparr>src = s, prompt = p, error = e, isCameraAngleFor = None, isRegenerating = None,
      isGeneratingAngles = None, isEditing = None, previousSrc = None\<rparr>"

subsection \<open>JavaScript helpers\<close>

text \<open>\<open>xs[i]\<close>: \<open>undefined\<close> out of range.\<close>

definition js_nth :: "'a list \<Rightarrow> nat \<Rightarrow> 'a option" where
  "js_nth xs i = (if i < length xs then Some (xs ! i) else None)"

text \<open>\<open>xs.splice(start, 0, ...items)\<close>: a start past the end is clamped to the end.\<close>

definition splice :: "nat \<Rightarrow> 'a list \<Rightarrow> 'a list \<Rightarrow> 'a list" where
  "splice start items xs = take start xs @ items @ drop start xs"

text \<open>\<open>xs.findIndex(p)\<close>, \<open>None\<close> for -1.\<close>

fun findIndex :: "('a \<Rightarrow> bool) \<Rightarrow> 'a list \<Rightarrow> nat option" where
  "findIndex p [] = None"
| "findIndex p (x # xs) =
     (if p x then Some 0 else (case findIndex p xs of None \<Rightarrow> None | Some i \<Rightarrow> Some (Suc i)))"

text \<open>Template literals print numbers in decimal.\<close>

definition digit_char :: "nat \<Rightarrow> char" where
  "digit_char d = char_of (48 + d)"

function show_nat :: "nat \<Rightarrow> string" where
  "show_nat n = (if n < 10 then [digit_char n] else show_nat (n div 10) @ [digit_char (n mod 10)])"
  by pat_completeness auto
termination
  by (relation "measure (\<lambda>n. n)") auto

declare show_nat.simps [simp del]

section \<open>Retry policy (services/geminiService.ts)\<close>

text \<open>
  A thrown value: an \<open>Error\<close> object with its message, or any other value, given by
  what \<open>String(value)\<close> prints.
\<close>

datatype js_thrown = JsError string | NonError string

text \<open>\<open>s.includes(pat)\<close> and \<open>s.toLowerCase()\<close> on code units below 256.\<close>

fun js_includes :: "string \<Rightarrow> string \<Rightarrow> bool" where
  "js_includes [] pat = (pat = [])"
| "js_includes (c # cs) pat = (take (length pat) (c # cs) = pat \<or> js_includes cs pat)"

definition lower_char :: "char \<Rightarrow> char" where
  "lower_char c =
     (let n = (of_char c :: nat)
      in if (65 \<le> n \<and> n \<le> 90) \<or> (192 \<le> n \<and> n \<le> 222 \<and> n \<noteq> 215)
         then char_of (n + 32) else c)"

definition toLowerCase :: "string \<Rightarrow> string" where
  "toLowerCase s = map lower_char s"

definition maxRetries :: nat where
  "maxRetries = 3"

definition isRetryable :: "js_thrown \<Rightarrow> bool" where
  "isRetryable err =
     (let errorMessage = (case err of JsError m \<Rightarrow> m | NonError s \<Rightarrow> s)
      in js_includes errorMessage ''503'' \<or> js_includes (toLowerCase errorMessage) ''overloaded''
         \<or> js_includes errorMessage ''429'')"

text \<open>
  What a run of \<open>withRetry\<close> does, in order: invocations of the wrapped operation,
  retry messages (to \<open>onRetryMessage\<close> or the console) and waits in milliseconds.
\<close>

datatype retry_event = Invoke | RetryMessage string | Delay nat

definition retryMsg :: "nat \<Rightarrow> nat \<Rightarrow> string" where
  "retryMsg delaySeconds attempt =
     ''Model is busy. Retrying in '' @ show_nat delaySeconds @ ''s... (Attempt ''
       @ show_nat attempt @ ''/'' @ show_nat maxRetries @ '')''"

text \<open>
  The wrapped operation is effectful: \<open>apiCall k\<close> is what its invocation number \<open>k\<close>
  (from 0) does, \<open>Inl\<close> a rejection. The loop starts at \<open>attempt = 0\<close>; the
  invocation made at \<open>attempt = k\<close> is invocation number \<open>k\<close>.
\<close>

function withRetry_loop ::
  "(nat \<Rightarrow> js_thrown + 'a) \<Rightarrow> nat \<Rightarrow> retry_event list \<Rightarrow> (js_thrown + 'a) \<times> retry_event list" where
  "withRetry_loop apiCall attempt trace =
     (if attempt < maxRetries
      then (case apiCall attempt of
              Inr v \<Rightarrow> (Inr v, trace @ [Invoke])
            | Inl err \<Rightarrow>
                (let attempt' = attempt + 1 in
                 if isRetryable err \<and> attempt' < maxRetries
                 then (let delaySeconds = 2 ^ attempt' * 15 in
                       withRetry_loop apiCall attempt'
                         (trace @ [Invoke, RetryMessage (retryMsg delaySeconds attempt'),
                                   Delay (delaySeconds * 1000)]))
                 else (Inl err, trace @ [Invoke])))
      else (Inl (JsError ''API call failed after multiple retries.''), trace))"
  by pat_completeness auto
termination
  by (relation "measure (\<lambda>(apiCall, attempt, trace). maxRetries - attempt)") auto

declare withRetry_loop.simps [simp del]

definition withRetry :: "(nat \<Rightarrow> js_thrown + 'a) \<Rightarrow> (js_thrown + 'a) \<times> retry_event list" where
  "withRetry apiCall = withRetry_loop apiCall 0 []"

definition invocations :: "retry_event list \<Rightarrow> nat" where
  "invocations trace = length (filter (\<lambda>e. e = Invoke) trace)"

fun delays :: "retry_event list \<Rightarrow> nat list" where
  "delays [] = []"
| "delays (Delay ms # es) = ms # delays es"
| "delays (e # es) = delays es"

section \<open>JSON.parse\<close>

text \<open>
  \<open>JSON.parse\<close> on texts of code units below 256, after the JSON grammar of ECMA-404: a
  lexer that reads one character at a time, then a parser that reads one token at a time
  with a stack of the open arrays and objects. A number is kept exactly, as
  \<open>(negative, m, e)\<close> for \<open>m \<times> 10^e\<close>. A \<open>\u\<close> escape of a code unit from 256 on has
  no \<open>char\<close>: the result is \<open>Unrepresentable\<close> there, and says nothing about the code.
\<close>

datatype 'a parsed = Value 'a | SyntaxError | Unrepresentable

datatype json =
    JNull
  | JBool bool
  | JNum bool nat int
  | JStr string
  | JArr "json list"
  | JObj "(string \<times> json) list"

datatype token =
    TLBrace | TRBrace | TLBrack | TRBrack | TColon | TComma
  | TStr string | TNum bool nat int | TTrue | TFalse | TNull

datatype num_state = NMinus | NZero | NInt | NDot | NFrac | NExp | NExpSign | NExpDigits

datatype lex_state =
    LStart
  | LStr string
  | LEsc string
  | LUni string nat nat
  | LLit string token
  | LNum num_state bool nat nat bool nat

definition is_ws :: "char \<Rightarrow> bool" where
  "is_ws c = (c = CHR '' '' \<or> c = CHR 0x09 \<or> c = CHR 0x0A \<or> c = CHR 0x0D)"

definition digit_val :: "char \<Rightarrow> nat option" where
  "digit_val c =
     (let n = (of_char c :: nat) in if 48 \<le> n \<and> n \<le> 57 then Some (n - 48) else None)"

definition hex_val :: "char \<Rightarrow> nat option" where
  "hex_val c =
     (let n = (of_char c :: nat)
      in if 48 \<le> n \<and> n \<le> 57 then Some (n - 48)
         else if 65 \<le> n \<and> n \<le> 70 then Some (n - 55)
         else if 97 \<le> n \<and> n \<le> 102 then Some (n - 87)
         else None)"

definition lex_start :: "char \<Rightarrow> (lex_state \<times> token list) parsed" where
  "lex_start c =
     (if is_ws c then Value (LStart, [])
      else if c = CHR ''{'' then Value (LStart, [TLBrace])
      else if c = CHR ''}'' then Value (LStart, [TRBrace])
      else if c = CHR ''['' then Value (LStart, [TLBrack])
      else if c = CHR '']'' then Value (LStart, [TRBrack])
      else if c = CHR '':'' then Value (LStart, [TColon])
      else if c = CHR '','' then Value (LStart, [TComma])
      else if c = CHR 0x22 then Value (LStr [], [])
      else if c = CHR ''-'' then Value (LNum NMinus True 0 0 False 0, [])
      else if c = CHR ''t'' then Value (LLit ''rue'' TTrue, [])
      else if c = CHR ''f'' then Value (LLit ''alse'' TFalse, [])
      else if c = CHR ''n'' then Value (LLit ''ull'' TNull, [])
      else (case digit_val c of
              Some d \<Rightarrow> Value (LNum (if d = 0 then NZero else NInt) False d 0 False 0, [])
            | None \<Rightarrow> SyntaxError))"

definition num_token :: "bool \<Rightarrow> nat \<Rightarrow> nat \<Rightarrow> bool \<Rightarrow> nat \<Rightarrow> token" where
  "num_token neg m fraclen eneg ev =
     TNum neg m ((if eneg then - int ev else int ev) - int fraclen)"

definition num_final :: "num_state \<Rightarrow> bool" where
  "num_final st = (st = NZero \<or> st = NInt \<or> st = NFrac \<or> st = NExpDigits)"

definition lex_num ::
  "num_state \<Rightarrow> bool \<Rightarrow> nat \<Rightarrow> nat \<Rightarrow> bool \<Rightarrow> nat \<Rightarrow> char \<Rightarrow> (lex_state \<times> token list) parsed" where
  "lex_num st neg m fl eneg ev c =
     (case digit_val c of
        Some d \<Rightarrow>
          (case st of
             NMinus \<Rightarrow> Value (LNum (if d = 0 then NZero else NInt) neg d fl eneg ev, [])
           | NZero \<Rightarrow> SyntaxError
           | NInt \<Rightarrow> Value (LNum NInt neg (m * 10 + d) fl eneg ev, [])
           | NDot \<Rightarrow> Value (LNum NFrac neg (m * 10 + d) (fl + 1) eneg ev, [])
           | NFrac \<Rightarrow> Value (LNum NFrac neg (m * 10 + d) (fl + 1) eneg ev, [])
           | NExp \<Rightarrow> Value (LNum NExpDigits neg m fl eneg d, [])
           | NExpSign \<Rightarrow> Value (LNum NExpDigits neg m fl eneg d, [])
           | NExpDigits \<Rightarrow> Value (LNum NExpDigits neg m fl eneg (ev * 10 + d), []))
      | None \<Rightarrow>
          (if c = CHR ''.'' \<and> (st = NZero \<or> st = NInt) then Value (LNum NDot neg m fl eneg ev, [])
           else if (c = CHR ''e'' \<or> c = CHR ''E'') \<and> (st = NZero \<or> st = NInt \<or> st = NFrac)
             then Value (LNum NExp neg m fl eneg ev, [])
           else if (c = CHR ''+'' \<or> c = CHR ''-'') \<and> st = NExp
             then Value (LNum NExpSign neg m fl (c = CHR ''-'') ev, [])
           else if num_final st
             then (case lex_start c of
                     Value (st', toks) \<Rightarrow> Value (st', num_token neg m fl eneg ev # toks)
                   | SyntaxError \<Rightarrow> SyntaxError
                   | Unrepresentable \<Rightarrow> Unrepresentable)
           else SyntaxError))"

definition lex_esc :: "string \<Rightarrow> char \<Rightarrow> (lex_state \<times> token list) parsed" where
  "lex_esc acc c =
     (if c = CHR 0x22 \<or> c = CHR 0x5C \<or> c = CHR ''/'' then Value (LStr (acc @ [c]), [])
      else if c = CHR ''b'' then Value (LStr (acc @ [CHR 0x08]), [])
      else if c = CHR ''f'' then Value (LStr (acc @ [CHR 0x0C]), [])
      else if c = CHR ''n'' then Value (LStr (acc @ [CHR 0x0A]), [])
      else if c = CHR ''r'' then Value (LStr (acc @ [CHR 0x0D]), [])
      else if c = CHR ''t'' then Value (LStr (acc @ [CHR 0x09]), [])
      else if c = CHR ''u'' then Value (LUni acc 0 0, [])
      else SyntaxError)"

fun lex_step :: "lex_state \<Rightarrow> char \<Rightarrow> (lex_state \<times> token list) parsed" where
  "lex_step LStart c = lex_start c"
| "lex_step (LStr acc) c =
     (if c = CHR 0x22 then Value (LStart, [TStr acc])
      else if c = CHR 0x5C then Value (LEsc acc, [])
      else if (of_char c :: nat) < 32 then SyntaxError
      else Value (LStr (acc @ [c]), []))"
| "lex_step (LEsc acc) c = lex_esc acc c"
| "lex_step (LUni acc k v) c =
     (case hex_val c of
        None \<Rightarrow> SyntaxError
      | Some h \<Rightarrow>
          (if k < 3 then Value (LUni acc (k + 1) (v * 16 + h), [])
           else if v * 16 + h < 256 then Value (LStr (acc @ [char_of (v * 16 + h)]), [])
           else Unrepresentable))"
| "lex_step (LLit rest tok) c =
     (case rest of
        [] \<Rightarrow> SyntaxError
      | x # xs \<Rightarrow>
          (if c \<noteq> x then SyntaxError
           else if xs = [] then Value (LStart, [tok]) else Value (LLit xs tok, [])))"
| "lex_step (LNum st neg m fl eneg ev) c = lex_num st neg m fl eneg ev c"

fun lex_finish :: "lex_state \<Rightarrow> token list parsed" where
  "lex_finish LStart = Value []"
| "lex_finish (LNum st neg m fl eneg ev) =
     (if num_final st then Value [num_token neg m fl eneg ev] else SyntaxError)"
| "lex_finish _ = SyntaxError"

fun lex :: "lex_state \<Rightarrow> string \<Rightarrow> token list parsed" where
  "lex st [] = lex_finish st"
| "lex st (c # cs) =
     (case lex_step st c of
        Value (st', toks) \<Rightarrow>
          (case lex st' cs of
             Value rest \<Rightarrow> Value (toks @ rest)
           | SyntaxError \<Rightarrow> SyntaxError
           | Unrepresentable \<Rightarrow> Unrepresentable)
      | SyntaxError \<Rightarrow> SyntaxError
      | Unrepresentable \<Rightarrow> Unrepresentable)"

text \<open>
  The parser: \<open>FArr\<close> is an open array with its elements so far, \<open>FObj\<close> an open object
  waiting for a key or a closing brace, \<open>FObjV\<close> an open object waiting for the value of a
  key.
\<close>

datatype frame =
    FArr "json list"
  | FObj "(string \<times> json) list"
  | FObjV "(string \<times> json) list" string

datatype pmode = MValue | MArrFirst | MObjFirst | MKey | MColon | MAfter | MDone json

fun deliver :: "json \<Rightarrow> frame list \<Rightarrow> (pmode \<times> frame list) option" where
  "deliver v [] = Some (MDone v, [])"
| "deliver v (FArr es # st) = Some (MAfter, FArr (es @ [v]) # st)"
| "deliver v (FObjV ms k # st) = Some (MAfter, FObj (ms @ [(k, v)]) # st)"
| "deliver v (FObj ms # st) = None"

fun scalar :: "token \<Rightarrow> json option" where
  "scalar (TStr s) = Some (JStr s)"
| "scalar (TNum neg m e) = Some (JNum neg m e)"
| "scalar TTrue = Some (JBool True)"
| "scalar TFalse = Some (JBool False)"
| "scalar TNull = Some JNull"
| "scalar _ = None"

definition parse_value :: "frame list \<Rightarrow> token \<Rightarrow> (pmode \<times> frame list) option" where
  "parse_value st tok =
     (case scalar tok of
        Some v \<Rightarrow> deliver v st
      | None \<Rightarrow>
          (if tok = TLBrack then Some (MArrFirst, FArr [] # st)
           else if tok = TLBrace then Some (MObjFirst, FObj [] # st)
           else None))"

definition parse_key :: "frame list \<Rightarrow> token \<Rightarrow> (pmode \<times> frame list) option" where
  "parse_key st tok =
     (case (tok, st) of
        (TStr k, FObj ms # st') \<Rightarrow> Some (MColon, FObjV ms k # st')
      | _ \<Rightarrow> None)"

fun parse_step :: "pmode \<Rightarrow> frame list \<Rightarrow> token \<Rightarrow> (pmode \<times> frame list) option" where
  "parse_step MValue st tok = parse_value st tok"
| "parse_step MArrFirst st tok =
     (if tok = TRBrack then (case st of FArr es # st' \<Rightarrow> deliver (JArr es) st' | _ \<Rightarrow> None)
      else parse_value st tok)"
| "parse_step MObjFirst st tok =
     (if tok = TRBrace then (case st of FObj ms # st' \<Rightarrow> deliver (JObj ms) st' | _ \<Rightarrow> None)
      else parse_key st tok)"
| "parse_step MKey st tok = parse_key st tok"
| "parse_step MColon st tok = (if tok = TColon then Some (MValue, st) else None)"
| "parse_step MAfter st tok =
     (case st of
        FArr es # st' \<Rightarrow>
          (if tok = TComma then Some (MValue, st)
           else if tok = TRBrack then deliver (JArr es) st' else None)
      | FObj ms # st' \<Rightarrow>
          (if tok = TComma then Some (MKey, st)
           else if tok = TRBrace then deliver (JObj ms) st' else None)
      | _ \<Rightarrow> None)"
| "parse_step (MDone v) st tok = None"

fun parse_tokens :: "pmode \<Rightarrow> frame list \<Rightarrow> token list \<Rightarrow> json option" where
  "parse_tokens mode st [] = (case mode of MDone v \<Rightarrow> Some v | _ \<Rightarrow> None)"
| "parse_tokens mode st (tok # toks) =
     (case parse_step mode st tok of
        None \<Rightarrow> None
      | Some (mode', st') \<Rightarrow> parse_tokens mode' st' toks)"

definition JSON_parse :: "string \<Rightarrow> json parsed" where
  "JSON_parse text =
     (case lex LStart text of
        Value toks \<Rightarrow> (case parse_tokens MValue [] toks of Some v \<Rightarrow> Value v | None \<Rightarrow> SyntaxError)
      | SyntaxError \<Rightarrow> SyntaxError
      | Unrepresentable \<Rightarrow> Unrepresentable)"

text \<open>
  \<open>obj[key]\<close> on a parsed object: the last member with that key (\<open>undefined\<close> when there is
  none), and on any other parsed value but \<open>null\<close> \<open>undefined\<close> for the keys read here,
  \<open>error\<close>, \<open>message\<close> and \<open>prompts\<close>, which no prototype defines.
\<close>

definition member :: "json \<Rightarrow> string \<Rightarrow> json option" where
  "member j key = (case j of JObj ms \<Rightarrow> map_of (rev ms) key | _ \<Rightarrow> None)"

text \<open>
  Truthiness. A number is read as the nearest double: it is zero, hence falsy, exactly when
  \<open>m \<times> 10^e \<le> 2^-1075\<close>.
\<close>

fun truthy :: "json \<Rightarrow> bool" where
  "truthy JNull = False"
| "truthy (JBool b) = b"
| "truthy (JNum neg m e) = (if 0 \<le> e then m \<noteq> 0 else 10 ^ nat (- e) < m * 2 ^ 1075)"
| "truthy (JStr s) = (s \<noteq> [])"
| "truthy (JArr es) = True"
| "truthy (JObj ms) = True"

section \<open>Error normaliser (utils/errorUtils.ts)\<close>

text \<open>
  The result of \<open>parseErrorMessage\<close>: a string; or the nested message itself where it is
  truthy and no string (\<open>Raw\<close>), which the code returns as it is; or \<open>Beyond\<close> where
  \<open>JSON_parse\<close> is \<open>Unrepresentable\<close>.
\<close>

datatype normalised = Str string | Raw json | Beyond

definition defaultMessage :: string where
  "defaultMessage = ''An unexpected error occurred. Please check the console for details.''"

definition invalidKeySentence :: string where
  "invalidKeySentence =
     ''Invalid API Key. Please ensure your API key is correct and has the necessary permissions.''"

definition contentPolicySentence :: string where
  "contentPolicySentence =
     ''Your prompt was blocked due to the content policy. Please modify your prompt and try again.''"

definition quotaSentence :: string where
  "quotaSentence =
     ''You'' @ [CHR 0x27] @ ''ve exceeded your quota. Please check your plan and billing details, then try again.''"

definition unavailableSentence :: string where
  "unavailableSentence =
     ''The model is temporarily unavailable or overloaded. Please try again later.''"

definition keyAccessSentence :: string where
  "keyAccessSentence =
     ''API Key error. The selected API key may not have access to this model. Please try selecting your key again.''"

text \<open>The string matching on the original message, after the JSON check.\<close>

definition match_message :: "string \<Rightarrow> string" where
  "match_message message =
     (let errorMessage = toLowerCase message in
      if js_includes errorMessage ''api key not valid'' then invalidKeySentence
      else if js_includes errorMessage ''blocked'' \<or> js_includes errorMessage ''safety''
        then contentPolicySentence
      else if js_includes errorMessage ''429'' \<or> js_includes errorMessage ''resource_exhausted''
              \<or> js_includes errorMessage ''rate limit''
        then quotaSentence
      else if js_includes errorMessage ''503'' \<or> js_includes errorMessage ''unavailable''
              \<or> js_includes errorMessage ''overloaded''
        then unavailableSentence
      else if js_includes errorMessage ''requested entity was not found'' then keyAccessSentence
      else if message \<noteq> [] then message else defaultMessage)"

text \<open>The message holds one of the substrings that \<open>match_message\<close> knows.\<close>

definition recognised :: "string \<Rightarrow> bool" where
  "recognised message =
     (let errorMessage = toLowerCase message in
      js_includes errorMessage ''api key not valid''
      \<or> js_includes errorMessage ''blocked'' \<or> js_includes errorMessage ''safety''
      \<or> js_includes errorMessage ''429'' \<or> js_includes errorMessage ''resource_exhausted''
      \<or> js_includes errorMessage ''rate limit''
      \<or> js_includes errorMessage ''503'' \<or> js_includes errorMessage ''unavailable''
      \<or> js_includes errorMessage ''overloaded''
      \<or> js_includes errorMessage ''requested entity was not found'')"

text \<open>
  \<open>parsed.error && parsed.error.message\<close>, when truthy. Reading \<open>parsed.error\<close> of
  \<open>null\<close> throws inside the \<open>try\<close> and is caught like a parse error.
\<close>

definition nested_message :: "json \<Rightarrow> json option" where
  "nested_message parsed =
     (case member parsed ''error'' of
        None \<Rightarrow> None
      | Some e \<Rightarrow>
          (if \<not> truthy e then None
           else (case member e ''message'' of
                   None \<Rightarrow> None
                 | Some m \<Rightarrow> (if truthy m then Some m else None))))"

definition parseErrorMessage :: "js_thrown \<Rightarrow> normalised" where
  "parseErrorMessage err =
     (case err of
        NonError v \<Rightarrow> Str defaultMessage
      | JsError message \<Rightarrow>
          (case JSON_parse message of
             Unrepresentable \<Rightarrow> Beyond
           | SyntaxError \<Rightarrow> Str (match_message message)
           | Value parsed \<Rightarrow>
               (case nested_message parsed of
                  None \<Rightarrow> Str (match_message message)
                | Some (JStr m) \<Rightarrow>
                    (if js_includes (toLowerCase m) ''quota'' then Str (''Quota exceeded. '' @ m)
                     else Str m)
                | Some m \<Rightarrow> Raw m)))"

section \<open>Scene pipeline (services/geminiService.ts)\<close>

text \<open>
  Error fields are strings. \<open>shown\<close> is the text a normalised error leaves in one: the
  string itself; for a nested message that is no string, and for an unrepresentable one, a
  fixed marker stands for the text.
\<close>

definition shown :: "normalised \<Rightarrow> string" where
  "shown n = (case n of Str s \<Rightarrow> s | Raw j \<Rightarrow> ''[non-string message]'' | Beyond \<Rightarrow> ''[unrepresentable message]'')"

text \<open>
  The remote model is the environment. What the code reads of a response of an image call:
  for each part of the first candidate its \<open>inlineData\<close> (\<open>None\<close> when absent) with its
  \<open>data\<close>, and for each generated image its \<open>image?.imageBytes\<close>.
\<close>

record image_response =
  parts :: "string option option list"
  generatedImages :: "string option list"

text \<open>
  The reply to the script breakdown, after \<open>JSON.parse(response.text.trim())\<close>: reading or
  parsing the text throws (\<open>Unreadable\<close>), or \<open>parsed.prompts\<close> is falsy (\<open>Absent\<close>),
  truthy and no array (\<open>NotArray\<close>), or an array, whose items are strings as the
  response schema of the call demands.
\<close>

datatype prompts_field = Absent | NotArray | StrArray "string list"

datatype breakdown_reply = Unreadable js_thrown | Reply prompts_field

text \<open>
  \<open>breakdown n k\<close> is the outcome of invocation \<open>k\<close> of the breakdown call that asks for
  \<open>n\<close> scenes, \<open>image i k\<close> of invocation \<open>k\<close> of the image call for prompt number \<open>i\<close>.
\<close>

record backend =
  API_KEY :: "string option"
  breakdown :: "nat \<Rightarrow> nat \<Rightarrow> js_thrown + breakdown_reply"
  image :: "nat \<Rightarrow> nat \<Rightarrow> js_thrown + image_response"

definition js_truthy :: "string option \<Rightarrow> bool" where
  "js_truthy s = (case s of None \<Rightarrow> False | Some t \<Rightarrow> t \<noteq> [])"

definition getAiClient :: "string option \<Rightarrow> js_thrown + unit" where
  "getAiClient key =
     (if \<not> js_truthy key then Inl (JsError ''API_KEY environment variable not set'') else Inr ())"

definition generatePromptsFromBase :: "backend \<Rightarrow> nat \<Rightarrow> js_thrown + string list" where
  "generatePromptsFromBase be sceneCount =
     (case getAiClient (API_KEY be) of
        Inl e \<Rightarrow> Inl e
      | Inr u \<Rightarrow>
          (case fst (withRetry (breakdown be sceneCount)) of
             Inl e \<Rightarrow> Inl e
           | Inr (Unreadable e) \<Rightarrow> Inl e
           | Inr (Reply (StrArray ps)) \<Rightarrow>
               (if length ps = 0 then Inl (JsError ''AI failed to return a valid array of prompts.'')
                else Inr ps)
           | Inr (Reply f) \<Rightarrow> Inl (JsError ''AI failed to return a valid array of prompts.'')))"

definition noImageMessage :: string where
  "noImageMessage = ''The model returned a success status but no image data. This may be due to a safety filter or an issue with the complexity of the prompt. Please try a different prompt.''"

text \<open>The first part that carries \<open>inlineData\<close>.\<close>

fun first_inline :: "string option option list \<Rightarrow> string option option" where
  "first_inline [] = None"
| "first_inline (None # ps) = first_inline ps"
| "first_inline (Some d # ps) = Some d"

definition forceNanoBanana :: "character list \<Rightarrow> bool" where
  "forceNanoBanana allCharactersWithStyles =
     (find (\<lambda>c. js_truthy (originalImageBase64 c) \<and> js_truthy (originalImageMimeType c))
        allCharactersWithStyles \<noteq> None)"

definition read_image :: "bool \<Rightarrow> image_response \<Rightarrow> string option \<times> string option" where
  "read_image isNanoBanana response =
     (if isNanoBanana
      then (case first_inline (parts response) of
              Some d \<Rightarrow> (d, None)
            | None \<Rightarrow> (None, Some noImageMessage))
      else (case generatedImages response of
              Some bytes # rest \<Rightarrow>
                (if bytes \<noteq> [] then (Some bytes, None) else (None, Some noImageMessage))
            | _ \<Rightarrow> (None, Some noImageMessage)))"

text \<open>
  \<open>generateSingleImage\<close>. The prompt text it composes goes to the remote model only and is
  left out; \<open>describe\<close> is the outcome of \<open>describeImageForConsistency\<close>, \<open>remote\<close> the
  invocations of the image call. \<open>getAiClient\<close> is called before the \<open>try\<close>: its error
  rejects the call, every other failure becomes a result with \<open>src\<close> null. The result
  comes with the events of the retry wrapper.
\<close>

definition generateSingleImage ::
  "string option \<Rightarrow> string \<Rightarrow> character list \<Rightarrow> string option \<Rightarrow> string option \<Rightarrow> (js_thrown + string)
     \<Rightarrow> (nat \<Rightarrow> js_thrown + image_response)
     \<Rightarrow> (js_thrown + string option \<times> string option) \<times> retry_event list" where
  "generateSingleImage key model allCharactersWithStyles referenceImageSrc
       referenceDescriptionOverride describe remote =
     (case getAiClient key of
        Inl e \<Rightarrow> (Inl e, [])
      | Inr u \<Rightarrow>
          (case (if \<not> js_truthy referenceDescriptionOverride \<and> js_truthy referenceImageSrc
                 then describe else Inr []) of
             Inl e \<Rightarrow> (Inr (None, Some (shown (parseErrorMessage e))), [])
           | Inr referenceDescription \<Rightarrow>
               (let isNanoBanana = (model = ''gemini-2.5-flash-image''
                                     \<or> forceNanoBanana allCharactersWithStyles)
                in (case withRetry remote of
                      (Inl e, tr) \<Rightarrow> (Inr (None, Some (shown (parseErrorMessage e))), tr)
                    | (Inr response, tr) \<Rightarrow> (Inr (read_image isNanoBanana response), tr)))))"

datatype pipeline_event = Progress string | ImageCall nat "retry_event list" | Pause nat

function generateImagesFromPrompts_loop ::
  "backend \<Rightarrow> string list \<Rightarrow> string \<Rightarrow> character list \<Rightarrow> nat \<Rightarrow> scene list \<Rightarrow> pipeline_event list
     \<Rightarrow> (js_thrown + scene list) \<times> pipeline_event list" where
  "generateImagesFromPrompts_loop be prompts model allCharactersWithStyles i scenes trace =
     (if i < length prompts
      then (let trace = trace @ [Progress (''Generating image '' @ show_nat (i + 1) @ '' of ''
                                             @ show_nat (length prompts) @ ''...'')]
            in (case generateSingleImage (API_KEY be) model allCharactersWithStyles
                       None None (Inr []) (image be i) of
                  (Inl e, tr) \<Rightarrow> (Inl e, trace @ [ImageCall i tr])
                | (Inr (s, err), tr) \<Rightarrow>
                    generateImagesFromPrompts_loop be prompts model allCharactersWithStyles
                      (i + 1) (scenes @ [mk_scene (prompts ! i) s err])
                      (trace @ [ImageCall i tr]
                         @ (if i < length prompts - 1
                            then [Progress ''Pausing to avoid rate limits...'', Pause 15000]
                            else []))))
      else (Inr scenes, trace))"
  by pat_completeness auto
termination
  by (relation "measure (\<lambda>(be, prompts, model, cs, i, scenes, trace). length prompts - i)") auto

declare generateImagesFromPrompts_loop.simps [simp del]

definition generateImagesFromPrompts ::
  "backend \<Rightarrow> string list \<Rightarrow> string \<Rightarrow> character list
     \<Rightarrow> (js_thrown + scene list) \<times> pipeline_event list" where
  "generateImagesFromPrompts be prompts model allCharactersWithStyles =
     generateImagesFromPrompts_loop be prompts model allCharactersWithStyles 0 [] []"

text \<open>\<open>generateImageSet\<close>: \<open>Inr\<close> the storyboard of the \<open>GenerationResult\<close>.\<close>

definition generateImageSet ::
  "backend \<Rightarrow> nat \<Rightarrow> string \<Rightarrow> character list \<Rightarrow> js_thrown + scene list" where
  "generateImageSet be imageCount model allCharactersWithStyles =
     (case (case generatePromptsFromBase be imageCount of
              Inl e \<Rightarrow> Inl e
            | Inr scenePrompts \<Rightarrow>
                fst (generateImagesFromPrompts be scenePrompts model allCharactersWithStyles)) of
        Inr storyboard \<Rightarrow> Inr storyboard
      | Inl (JsError m) \<Rightarrow> Inl (JsError (shown (parseErrorMessage (JsError m))))
      | Inl (NonError v) \<Rightarrow> Inl (JsError ''An unknown error occurred during image set generation.''))"

subsection \<open>handleGenerateImage (App.tsx)\<close>

datatype app_status = AppIdle | AppLoading | AppError string

text \<open>
  The history and the status after \<open>handleGenerateImage\<close>; \<open>now\<close> is \<open>Date.now()\<close>.
\<close>

definition handleGenerateImage ::
  "backend \<Rightarrow> nat \<Rightarrow> string \<Rightarrow> nat \<Rightarrow> string \<Rightarrow> string \<Rightarrow> string \<Rightarrow> string \<Rightarrow> character list
     \<Rightarrow> generationItem list \<Rightarrow> generationItem list \<times> app_status" where
  "handleGenerateImage be now promptText imageCount ar style model gnr chars prev =
     (if promptText = []
      then (prev, AppError ''Please enter a prompt or upload audio to generate one.'')
      else (case generateImageSet be imageCount model chars of
              Inr storyboard \<Rightarrow>
                (\<lparr>gi_id = now, gi_prompt = promptText, imageSet = storyboard,
                   videoStates = map (\<lambda>u. getInitialVideoState) (replicate (length storyboard) ()),
                   aspectRatio = ar, imageStyle = style, genre = gnr, characters = chars,
                   imageModel = model\<rparr> # prev, AppIdle)
            | Inl err \<Rightarrow> (prev, AppError (shown (parseErrorMessage err)))))"

section \<open>Camera-angle pipeline (services/geminiService.ts)\<close>

definition editRejectedMessage :: string where
  "editRejectedMessage = ''The model did not return an edited image. The edit may have been rejected by a safety filter.''"

text \<open>\<open>editImage\<close>, with the prompt text left out as in \<open>generateSingleImage\<close>.\<close>

definition editImage ::
  "string option \<Rightarrow> (nat \<Rightarrow> js_thrown + image_response) \<Rightarrow> js_thrown + string option \<times> string option" where
  "editImage key remote =
     (case getAiClient key of
        Inl e \<Rightarrow> Inl e
      | Inr u \<Rightarrow>
          (case fst (withRetry remote) of
             Inl e \<Rightarrow> Inr (None, Some (shown (parseErrorMessage e)))
           | Inr response \<Rightarrow>
               (case first_inline (parts response) of
                  Some d \<Rightarrow> Inr (d, None)
                | None \<Rightarrow> Inr (None, Some editRejectedMessage))))"

text \<open>
  The environment of the pipeline: the invocations of the outpainting call, the outcome of
  \<open>analyzeEnvironmentForCameraPlacement\<close> (an error, or the parsed plan read by key, its
  values strings as its response schema demands) and the invocations of the edit call of
  angle number \<open>i\<close>.
\<close>

record angle_backend =
  angle_key :: "string option"
  outpaint :: "nat \<Rightarrow> js_thrown + image_response"
  analysis :: "js_thrown + (string \<Rightarrow> string option)"
  angle_image :: "nat \<Rightarrow> nat \<Rightarrow> js_thrown + image_response"

definition frontPrompt :: string where
  "frontPrompt = ''Render the scene from a direct front-on camera angle, facing the main character. The character'' @ [CHR 0x27] @ ''s pose and the room'' @ [CHR 0x27] @ ''s layout remain unchanged.''"

datatype angle_event = AngleProgress string | AnglePause nat

text \<open>
  The loop over the requested angles. A missing prompt pushes a failed scene and goes on
  with \<open>continue\<close>, which also skips the pause.
\<close>

function angles_loop ::
  "angle_backend \<Rightarrow> (string \<Rightarrow> string option) \<Rightarrow> string list \<Rightarrow> nat \<Rightarrow> scene list \<Rightarrow> angle_event list
     \<Rightarrow> (js_thrown + scene list) \<times> angle_event list" where
  "angles_loop be cameraPrompts angleNames i generatedScenes trace =
     (if i < length angleNames
      then (let angle = angleNames ! i in
            if \<not> js_truthy (cameraPrompts (angle @ ''_view_prompt''))
            then angles_loop be cameraPrompts angleNames (i + 1)
                   (generatedScenes @
                      [mk_scene (''Failed to generate prompt for '' @ angle @ '' view'') None
                         (Some (''AI analysis did not provide a prompt for the '' @ angle @ '' view.''))])
                   trace
            else (let finalEditPrompt = the (cameraPrompts (angle @ ''_view_prompt''));
                      trace = trace @ [AngleProgress (''Generating '' @ [CHR 0x27] @ angle @ [CHR 0x27]
                                 @ '' view... ('' @ show_nat (i + 1) @ ''/''
                                 @ show_nat (length angleNames) @ '')'')]
                  in (case editImage (angle_key be) (angle_image be i) of
                        Inl e \<Rightarrow> (Inl e, trace)
                      | Inr (newImageSrc, newError) \<Rightarrow>
                          angles_loop be cameraPrompts angleNames (i + 1)
                            (generatedScenes @ [mk_scene finalEditPrompt newImageSrc newError])
                            (trace @ (if i < length angleNames - 1
                                      then [AngleProgress ''Pausing before next angle...'',
                                            AnglePause 15000]
                                      else [])))))
      else (Inr generatedScenes, trace))"
  by pat_completeness auto
termination
  by (relation "measure (\<lambda>(be, cp, angleNames, i, gs, trace). length angleNames - i)") auto

declare angles_loop.simps [simp del]

definition generateCameraAnglesFromImage ::
  "angle_backend \<Rightarrow> scene \<Rightarrow> string list \<Rightarrow> js_thrown + scene list" where
  "generateCameraAnglesFromImage be referenceScene angleNames =
     (if \<not> js_truthy (src referenceScene)
      then Inl (JsError ''Reference scene is missing image source.'')
      else (case editImage (angle_key be) (outpaint be) of
              Inl e \<Rightarrow> Inl e
            | Inr (extendedImageSrc, extensionError) \<Rightarrow>
                (if js_truthy extensionError \<or> \<not> js_truthy extendedImageSrc
                 then Inl (JsError (''Could not extend the base image: ''
                        @ (if js_truthy extensionError then the extensionError else ''Unknown error'')))
                 else (case (if filter (\<lambda>n. n \<noteq> ''front'') angleNames \<noteq> []
                             then analysis be else Inr Map.empty) of
                         Inl e \<Rightarrow> Inl e
                       | Inr plan \<Rightarrow>
                           (let cameraPrompts =
                                  (if ''front'' \<in> set angleNames
                                   then plan(''front_view_prompt'' \<mapsto> frontPrompt) else plan)
                            in fst (angles_loop be cameraPrompts angleNames 0 [] []))))))"

section \<open>Video assembly (services/geminiService.ts)\<close>

datatype audioAssignment = AssignCharacter string | AssignBackground

text \<open>\<open>AudioOptions\<close>: an uploaded payload with its media type, or a script to speak.\<close>

datatype audioOptions = UploadAudio string string "audioAssignment option" | TtsAudio string

text \<open>
  What the code reads of a video operation: \<open>done\<close>, the JSON text of \<open>error\<close> when
  it is truthy, and \<open>response?.generatedVideos?.[0]?.video\<close> as its \<open>uri\<close> and the
  object itself.
\<close>

record operation =
  op_done :: bool
  op_error :: "string option"
  op_video :: "(string option \<times> string) option"

record http_response =
  ok :: bool
  http_status :: nat
  statusText :: string
  blob :: string

text \<open>
  The environment: the outcome of the \<open>try\<close> block of \<open>generateSpeech\<close> (the speech
  call, single or multi-speaker, with the audio data it returns), \<open>base64ToBytes\<close> (\<open>atob\<close> throws on a malformed payload),
  \<open>URL.createObjectURL\<close>, the invocations of the video request and of poll number \<open>n\<close>,
  and the download (\<open>new URL\<close> and \<open>fetch\<close>).
\<close>

record video_backend =
  video_key :: "string option"
  tts :: "js_thrown + string option"
  base64ToBytes :: "string \<Rightarrow> js_thrown + string"
  createObjectURL :: "string \<Rightarrow> string"
  generateVideos :: "nat \<Rightarrow> js_thrown + operation"
  getVideosOperation :: "nat \<Rightarrow> nat \<Rightarrow> js_thrown + operation"
  download :: "string \<Rightarrow> js_thrown + http_response"

definition generateSpeech :: "video_backend \<Rightarrow> string \<Rightarrow> js_thrown + string option" where
  "generateSpeech be script =
     (case getAiClient (video_key be) of
        Inl e \<Rightarrow> Inl e
      | Inr u \<Rightarrow>
          (if script = [] then Inr None
           else (case tts be of
                   Inl e \<Rightarrow> Inl (JsError (''TTS generation failed: '' @ shown (parseErrorMessage e)))
                 | Inr base64Audio \<Rightarrow> Inr (if js_truthy base64Audio then base64Audio else None))))"

text \<open>
  The body of the \<open>try\<close> of the audio branch: \<open>Inl\<close> what it throws, \<open>Inr (Some r)\<close>
  what it returns, \<open>Inr None\<close> when it falls through.
\<close>

definition audio_try ::
  "video_backend \<Rightarrow> audioOptions \<Rightarrow> js_thrown + (string option \<times> string option) option" where
  "audio_try be opts =
     (case (case opts of
              UploadAudio payload mimeType assignment \<Rightarrow> Inr (Some payload)
            | TtsAudio script \<Rightarrow> (if script \<noteq> [] then generateSpeech be script else Inr None)) of
        Inl e \<Rightarrow> Inl e
      | Inr b64 \<Rightarrow>
          (if js_truthy b64
           then (case base64ToBytes be (the b64) of
                   Inl e \<Rightarrow> Inl e
                 | Inr audioBytes \<Rightarrow> Inr (Some (Some (createObjectURL be audioBytes), b64)))
           else Inr None))"

text \<open>
  \<open>audioDataPromise\<close>: \<open>Inl\<close> would be a rejection. The \<open>catch\<close> logs and falls through
  to the final \<open>return\<close>.
\<close>

definition audioDataPromise ::
  "video_backend \<Rightarrow> audioOptions option \<Rightarrow> js_thrown + (string option \<times> string option)" where
  "audioDataPromise be audioOpts =
     (case audioOpts of
        None \<Rightarrow> Inr (None, None)
      | Some opts \<Rightarrow>
          (case audio_try be opts of
             Inr (Some r) \<Rightarrow> Inr r
           | Inr None \<Rightarrow> Inr (None, None)
           | Inl err \<Rightarrow> Inr (None, None)))"

text \<open>
  The polling loop has no bound in the code: \<open>fuel\<close> bounds the polls, and \<open>None\<close> is a
  job still not done after them.
\<close>

fun poll :: "nat \<Rightarrow> video_backend \<Rightarrow> nat \<Rightarrow> operation \<Rightarrow> (js_thrown + operation) option" where
  "poll fuel be n opn =
     (if op_done opn then Some (Inr opn)
      else (case fuel of
              0 \<Rightarrow> None
            | Suc fuel' \<Rightarrow>
                (case fst (withRetry (getVideosOperation be n)) of
                   Inl e \<Rightarrow> Some (Inl e)
                 | Inr opn' \<Rightarrow> poll fuel' be (n + 1) opn')))"

definition downloadFailure :: "http_response \<Rightarrow> string" where
  "downloadFailure r =
     ''Failed to download the generated video. Status: '' @ statusText r @ '' (''
       @ show_nat (http_status r) @ '').''
       @ (if http_status r = 403 then '' This may be due to an API key permission issue.''
          else if http_status r = 404 then '' The video link may have expired or is invalid.''
          else [])"

definition noVideoMessage :: string where
  "noVideoMessage = ''Video generation completed, but no video was returned. This may be due to the prompt being blocked by a safety filter. Please try a different prompt.''"

text \<open>After the polling: the error of the job, the video object and the download.\<close>

definition finalize_video :: "video_backend \<Rightarrow> operation \<Rightarrow> js_thrown + string \<times> string" where
  "finalize_video be opn =
     (case op_error opn of
        Some errorJson \<Rightarrow>
          Inl (JsError ([CHR ''{'', CHR 0x22] @ ''error'' @ [CHR 0x22, CHR '':''] @ errorJson @ [CHR ''}'']))
      | None \<Rightarrow>
          (case op_video opn of
             None \<Rightarrow> Inl (JsError noVideoMessage)
           | Some (uri, vobj) \<Rightarrow>
               (if \<not> js_truthy uri then Inl (JsError noVideoMessage)
                else (case download be (the uri) of
                        Inl e \<Rightarrow> Inl e
                      | Inr videoResponse \<Rightarrow>
                          (if \<not> ok videoResponse then Inl (JsError (downloadFailure videoResponse))
                           else Inr (createObjectURL be (blob videoResponse), vobj))))))"

text \<open>
  \<open>generateVideoFromScene\<close>; the result is a \<open>videoClip\<close>. The audio branch has started
  before the video request and is awaited last.
\<close>

definition generateVideoFromScene ::
  "nat \<Rightarrow> video_backend \<Rightarrow> scene option \<Rightarrow> audioOptions option \<Rightarrow> (js_thrown + videoClip) option" where
  "generateVideoFromScene fuel be scn audioOpts =
     (case getAiClient (video_key be) of
        Inl e \<Rightarrow> Some (Inl e)
      | Inr u \<Rightarrow>
          (if (case scn of None \<Rightarrow> True | Some s \<Rightarrow> \<not> js_truthy (src s))
           then Some (Inl (JsError ''Cannot generate video from an empty or failed scene.''))
           else (case fst (withRetry (generateVideos be)) of
                   Inl e \<Rightarrow> Some (Inl e)
                 | Inr opn0 \<Rightarrow>
                     (case poll fuel be 0 opn0 of
                        None \<Rightarrow> None
                      | Some (Inl e) \<Rightarrow> Some (Inl e)
                      | Some (Inr opn) \<Rightarrow>
                          (case finalize_video be opn of
                             Inl e \<Rightarrow> Some (Inl e)
                           | Inr (url, vobj) \<Rightarrow>
                               (case audioDataPromise be audioOpts of
                                  Inl e \<Rightarrow> Some (Inl e)
                                | Inr (aUrl, aBase64) \<Rightarrow>
                                    Some (Inr \<lparr>videoUrl = Some url, audioUrl = aUrl,
                                                videoObject = vobj, audioBase64 = aBase64\<rparr>)))))))"

text \<open>The audio branch fails: speech synthesis throws, or decoding the payload throws.\<close>

definition audio_fails :: "video_backend \<Rightarrow> audioOptions \<Rightarrow> bool" where
  "audio_fails be opts = (case audio_try be opts of Inl e \<Rightarrow> True | Inr r \<Rightarrow> False)"

section \<open>Scene tree mutation (App.tsx)\<close>

subsection \<open>handleDeleteScene\<close>

text \<open>
  A JavaScript \<open>Set\<close> of indices is a list read through \<open>\<in> set\<close>: only membership
  (\<open>has\<close>) and iteration over the at most two initial entries are used.
\<close>

definition children_of :: "scene list \<Rightarrow> nat \<Rightarrow> nat list" where
  "children_of scenes index =
     filter (\<lambda>childIndex. isCameraAngleFor (scenes ! childIndex) = Some index) [0..<length scenes]"

definition confirmMessage :: "scene list \<Rightarrow> nat \<Rightarrow> scene \<Rightarrow> string" where
  "confirmMessage scenes sceneIndex sceneToDelete =
     (case isCameraAngleFor sceneToDelete of
        None \<Rightarrow>
          (let childrenCount = length (filter (\<lambda>s. isCameraAngleFor s = Some sceneIndex) scenes)
           in if childrenCount > 0
              then ''This will also delete '' @ show_nat childrenCount
                     @ '' associated camera angle(s). Are you sure?''
              else ''Are you sure you want to delete this scene? This action cannot be undone.'')
      | Some parentIndex \<Rightarrow>
          (if length (filter (\<lambda>s. isCameraAngleFor s = Some parentIndex) scenes) = 1
           then ''This is the last camera angle. Deleting it will also remove the parent scene. Are you sure?''
           else ''Are you sure you want to delete this scene? This action cannot be undone.''))"

definition initialIndicesToRemove :: "scene list \<Rightarrow> nat \<Rightarrow> scene \<Rightarrow> nat list" where
  "initialIndicesToRemove scenes sceneIndex sceneToDelete =
     (case isCameraAngleFor sceneToDelete of
        None \<Rightarrow> [sceneIndex]
      | Some parentIndex \<Rightarrow>
          (if length (filter (\<lambda>s. isCameraAngleFor s = Some parentIndex) scenes) = 1
           then [sceneIndex, parentIndex] else [sceneIndex]))"

text \<open>
  \<open>item.imageSet[index]?.isCameraAngleFor === undefined\<close> holds for a root and for an index
  out of range.
\<close>

definition finalIndicesToRemove :: "scene list \<Rightarrow> nat list \<Rightarrow> nat list" where
  "finalIndicesToRemove scenes initial =
     initial @ concat (map (\<lambda>index.
        (case js_nth scenes index of
           None \<Rightarrow> children_of scenes index
         | Some s \<Rightarrow> (if isCameraAngleFor s = None then children_of scenes index else [])))
        initial)"

text \<open>
  The filtering loop: \<open>newImageSet\<close>, \<open>newVideoStates\<close>, \<open>indexMap\<close> and
  \<open>currentNewIndex\<close> after the indices below \<open>i\<close>. \<open>item.videoStates[i]\<close> is
  \<open>undefined\<close> where the Video-State sequence is shorter than the Scene sequence.
\<close>

record delete_loop_state =
  newImageSet :: "scene list"
  newVideoStates :: "videoState option list"
  indexMap :: "nat \<Rightarrow> nat option"
  currentNewIndex :: nat

definition delete_loop_step ::
  "nat list \<Rightarrow> scene list \<Rightarrow> videoState list \<Rightarrow> delete_loop_state \<Rightarrow> nat \<Rightarrow> delete_loop_state" where
  "delete_loop_step removed oldImageSet vs st i =
     (if i \<notin> set removed
      then \<lparr>newImageSet = newImageSet st @ [oldImageSet ! i],
            newVideoStates = newVideoStates st @ [js_nth vs i],
            indexMap = (indexMap st)(i \<mapsto> currentNewIndex st),
            currentNewIndex = currentNewIndex st + 1\<rparr>
      else st)"

definition delete_loop ::
  "nat list \<Rightarrow> scene list \<Rightarrow> videoState list \<Rightarrow> delete_loop_state" where
  "delete_loop removed oldImageSet vs =
     foldl (delete_loop_step removed oldImageSet vs)
       \<lparr>newImageSet = [], newVideoStates = [], indexMap = Map.empty, currentNewIndex = 0\<rparr>
       [0..<length oldImageSet]"

definition reindex :: "nat list \<Rightarrow> (nat \<Rightarrow> nat option) \<Rightarrow> scene \<Rightarrow> scene" where
  "reindex removed imap s =
     (case isCameraAngleFor s of
        None \<Rightarrow> s
      | Some oldParentIndex \<Rightarrow>
          (if oldParentIndex \<in> set removed then s\<lparr>isCameraAngleFor := None\<rparr>
           else (case imap oldParentIndex of
                   Some newParentIndex \<Rightarrow> s\<lparr>isCameraAngleFor := Some newParentIndex\<rparr>
                 | None \<Rightarrow> s)))"

text \<open>
  The rebuilt item. An \<open>undefined\<close> pushed into the Video-State sequence is no
  \<open>VideoState\<close>: the result is \<open>None\<close> there.
\<close>

definition delete_from_item :: "nat list \<Rightarrow> generationItem \<Rightarrow> generationItem option" where
  "delete_from_item removed item =
     (let st = delete_loop removed (imageSet item) (videoStates item);
          reindexedImageSet = map (reindex removed (indexMap st)) (newImageSet st)
      in (case those (newVideoStates st) of
            None \<Rightarrow> None
          | Some vs' \<Rightarrow> Some (item\<lparr>imageSet := reindexedImageSet, videoStates := vs'\<rparr>)))"

text \<open>
  The state update of \<open>handleDeleteScene\<close>; \<open>confirm\<close> is the user's answer to
  \<open>window.confirm\<close>. An emptied generation leaves the history.
\<close>

definition delete_in_history ::
  "generationItem list \<Rightarrow> nat \<Rightarrow> generationItem option \<Rightarrow> generationItem list option" where
  "delete_in_history prev itemIndex res =
     (case res of
        None \<Rightarrow> None
      | Some item' \<Rightarrow>
          (if imageSet item' = []
           then Some (take itemIndex prev @ drop (Suc itemIndex) prev)
           else Some (prev[itemIndex := item'])))"

definition handleDeleteScene ::
  "(string \<Rightarrow> bool) \<Rightarrow> generationItem list \<Rightarrow> nat \<Rightarrow> nat \<Rightarrow> generationItem list option" where
  "handleDeleteScene confirm prev generationId sceneIndex =
     (case findIndex (\<lambda>item. gi_id item = generationId) prev of
        None \<Rightarrow> Some prev
      | Some itemIndex \<Rightarrow>
          (let item = prev ! itemIndex in
           case js_nth (imageSet item) sceneIndex of
             None \<Rightarrow> Some prev
           | Some sceneToDelete \<Rightarrow>
               (if \<not> confirm (confirmMessage (imageSet item) sceneIndex sceneToDelete)
                then Some prev
                else delete_in_history prev itemIndex
                       (delete_from_item
                          (finalIndicesToRemove (imageSet item)
                             (initialIndicesToRemove (imageSet item) sceneIndex sceneToDelete))
                          item))))"

subsection \<open>handleConfirmAngleGeneration\<close>

text \<open>
  The handler updates the state three times, each time through an updater that React
  applies to the generation history as it is at that moment (\<open>prev\<close>): once before the
  angle generation is awaited, and once after it, on success or on failure. The updaters
  before the wait and on failure go through the scenes with \<open>map\<close>.
\<close>

definition set_scene :: "nat \<Rightarrow> (scene \<Rightarrow> scene) \<Rightarrow> generationItem \<Rightarrow> generationItem" where
  "set_scene sceneIndex f item =
     item\<lparr>imageSet := map (\<lambda>(i, s). if i = sceneIndex then f s else s)
                           (zip [0..<length (imageSet item)] (imageSet item))\<rparr>"

definition angles_started :: "nat \<Rightarrow> nat \<Rightarrow> generationItem list \<Rightarrow> generationItem list" where
  "angles_started generationId sceneIndex prev =
     map (\<lambda>item. if gi_id item = generationId
                  then set_scene sceneIndex (\<lambda>s. s\<lparr>isGeneratingAngles := Some True\<rparr>) item
                  else item) prev"

definition angles_failed :: "nat \<Rightarrow> nat \<Rightarrow> string \<Rightarrow> generationItem list \<Rightarrow> generationItem list" where
  "angles_failed generationId sceneIndex parsedError prev =
     map (\<lambda>item. if gi_id item = generationId
                  then set_scene sceneIndex (\<lambda>s. s\<lparr>isGeneratingAngles := Some False,
                         error := Some (''Angle generation failed: '' @ parsedError)\<rparr>) item
                  else item) prev"

text \<open>
  The updater on success works on copies of the two arrays of the generation and ends with
  the assignment \<open>updatedImageSet[sceneIndex] = {...updatedImageSet[sceneIndex],
  isGeneratingAngles: false, error: null}\<close>. An assignment past the end of a JavaScript
  array extends it: the entries in between are empty, and the entry written is the spread of
  \<open>undefined\<close> with the two fields, an object without prompt and image. \<open>slot\<close> is an
  entry of the array after the assignment: a scene (\<open>Node\<close>), an empty entry (\<open>Hole\<close>)
  or that object (\<open>Stub\<close>).
\<close>

datatype slot = Node scene | Hole | Stub

definition bump_parent :: "nat \<Rightarrow> nat \<Rightarrow> scene \<Rightarrow> scene" where
  "bump_parent sceneIndex m s =
     (case isCameraAngleFor s of
        Some p \<Rightarrow> (if p > sceneIndex then s\<lparr>isCameraAngleFor := Some (p + m)\<rparr> else s)
      | None \<Rightarrow> s)"

text \<open>The two arrays that the updater on success returns for the generation.\<close>

definition angle_update :: "nat \<Rightarrow> scene list \<Rightarrow> generationItem \<Rightarrow> slot list \<times> videoState list" where
  "angle_update sceneIndex newScenes item =
     (let updatedImageSet = map (bump_parent sceneIndex (length newScenes)) (imageSet item);
          updatedImageSet = splice (sceneIndex + 1)
             (map (\<lambda>s. s\<lparr>isCameraAngleFor := Some sceneIndex\<rparr>) newScenes) updatedImageSet;
          newVideoStates = splice (sceneIndex + 1)
             (map (\<lambda>u. getInitialVideoState) (replicate (length newScenes) ()))
             (videoStates item)
      in (if sceneIndex < length updatedImageSet
          then map Node (updatedImageSet[sceneIndex :=
                  (updatedImageSet ! sceneIndex)\<lparr>isGeneratingAngles := Some False, error := None\<rparr>])
          else map Node updatedImageSet @ replicate (sceneIndex - length updatedImageSet) Hole @ [Stub],
          newVideoStates))"

fun the_scene :: "slot \<Rightarrow> scene option" where
  "the_scene (Node s) = Some s"
| "the_scene Hole = None"
| "the_scene Stub = None"

text \<open>
  The generation after the updater on success. With a \<open>Hole\<close> or the \<open>Stub\<close> among its
  entries the first array is no Scene sequence and the result is \<open>None\<close>; \<open>angle_update\<close>
  tells the two arrays then.
\<close>

definition insert_angles :: "nat \<Rightarrow> scene list \<Rightarrow> generationItem \<Rightarrow> generationItem option" where
  "insert_angles sceneIndex newScenes item =
     (case angle_update sceneIndex newScenes item of
        (slots, states) \<Rightarrow>
          (case those (map the_scene slots) of
             None \<Rightarrow> None
           | Some scenes \<Rightarrow> Some (item\<lparr>imageSet := scenes, videoStates := states\<rparr>)))"

definition angles_arrived ::
  "nat \<Rightarrow> nat \<Rightarrow> scene list \<Rightarrow> generationItem list \<Rightarrow> generationItem list option" where
  "angles_arrived generationId sceneIndex newScenes prev =
     those (map (\<lambda>item. if gi_id item \<noteq> generationId then Some item
                         else insert_angles sceneIndex newScenes item) prev)"

text \<open>
  The generation history after \<open>handleConfirmAngleGeneration\<close>. \<open>generationHistory\<close> is
  the state that the handler reads when it is called; its checks and the scene it sends to
  the pipeline come from there, with \<open>generationId\<close> and \<open>sceneIndex\<close> of the dialog. The
  first updater applies to that state. \<open>meanwhile\<close> is what the updates of other handlers
  make of the state while \<open>generateCameraAnglesFromImage\<close> is awaited (the identity when
  nothing else runs): the updater after the wait applies to the state as it is then, with
  the \<open>sceneIndex\<close> read before the wait. The branch for uploaded images works on another
  state and leaves the history as it is.
\<close>

definition handleConfirmAngleGeneration ::
  "angle_backend \<Rightarrow> generationItem list \<Rightarrow> (generationItem list \<Rightarrow> generationItem list)
     \<Rightarrow> bool \<Rightarrow> nat \<Rightarrow> nat \<Rightarrow> string list \<Rightarrow> generationItem list option" where
  "handleConfirmAngleGeneration be generationHistory meanwhile isUploaded generationId sceneIndex
       angleNames =
     (if isUploaded then Some generationHistory
      else if length angleNames = 0 then Some generationHistory
      else (case find (\<lambda>item. gi_id item = generationId) generationHistory of
              None \<Rightarrow> Some generationHistory
            | Some generationItem \<Rightarrow>
                (case js_nth (imageSet generationItem) sceneIndex of
                   None \<Rightarrow> Some generationHistory
                 | Some sceneToUpdate \<Rightarrow>
                     (if \<not> js_truthy (src sceneToUpdate) then Some generationHistory
                      else (let prev = meanwhile (angles_started generationId sceneIndex generationHistory)
                            in (case generateCameraAnglesFromImage be sceneToUpdate angleNames of
                                  Inr newScenes \<Rightarrow> angles_arrived generationId sceneIndex newScenes prev
                                | Inl err \<Rightarrow>
                                    Some (angles_failed generationId sceneIndex
                                            (shown (parseErrorMessage err)) prev)))))))"

subsection \<open>handleExtendFromLastFrame\<close>

text \<open>The scan for the last angle-child that directly follows the parent.\<close>

function lastChildIndex_loop :: "scene list \<Rightarrow> nat \<Rightarrow> nat \<Rightarrow> nat \<Rightarrow> nat" where
  "lastChildIndex_loop scenes parentIndex i lastChildIndex =
     (if i < length scenes
      then (if isCameraAngleFor (scenes ! i) = Some parentIndex
            then lastChildIndex_loop scenes parentIndex (i + 1) i
            else lastChildIndex)
      else lastChildIndex)"
  by pat_completeness auto
termination
  by (relation "measure (\<lambda>(scenes, parentIndex, i, l). length scenes - i)") auto

declare lastChildIndex_loop.simps [simp del]

definition extend_item :: "nat \<Rightarrow> scene \<Rightarrow> generationItem \<Rightarrow> generationItem" where
  "extend_item sceneIndex newScene item =
     (let parentIndex = sceneIndex;
          insertionPoint = lastChildIndex_loop (imageSet item) parentIndex (parentIndex + 1) parentIndex + 1
      in item\<lparr>imageSet := splice insertionPoint [newScene] (imageSet item),
               videoStates := splice insertionPoint [getInitialVideoState] (videoStates item)\<rparr>)"

text \<open>
  The generation history after \<open>handleExtendFromLastFrame\<close> with \<open>isUploaded = false\<close>,
  run with no other update while the frame is extracted; \<open>frame\<close> is the outcome of
  \<open>extractFrameAsBase64\<close> on the last clip.
\<close>

definition handleExtendFromLastFrame ::
  "(string \<Rightarrow> js_thrown + string) \<Rightarrow> generationItem list \<Rightarrow> nat \<Rightarrow> nat \<Rightarrow> generationItem list" where
  "handleExtendFromLastFrame frame generationHistory ident sceneIndex =
     (case find (\<lambda>item. gi_id item = ident) generationHistory of
        None \<Rightarrow> generationHistory
      | Some targetItem \<Rightarrow>
          (case js_nth (videoStates targetItem) sceneIndex of
             None \<Rightarrow> generationHistory
           | Some vs \<Rightarrow>
               (case js_nth (clips vs) (length (clips vs) - 1) of
                  None \<Rightarrow> generationHistory
                | Some lastClip \<Rightarrow>
                    (if \<not> js_truthy (videoUrl lastClip) then generationHistory
                     else (case frame (the (videoUrl lastClip)) of
                             Inl e \<Rightarrow> generationHistory
                           | Inr frameBase64 \<Rightarrow>
                               map (\<lambda>item. if gi_id item = ident
                                      then extend_item sceneIndex
                                             ((mk_scene ''Animation from the last frame of the previous scene.''
                                                 (Some frameBase64) None)
                                                \<lparr>isCameraAngleFor := Some sceneIndex\<rparr>) item
                                      else item) generationHistory)))))"

section \<open>Notions used in the statements\<close>

subsection \<open>Retry policy\<close>

text \<open>
  The message of a failure, and the transient markers as the policy is described: the
  message contains 503, or overloaded in any mix of upper and lower case, or 429.
\<close>

definition message_of :: "js_thrown \<Rightarrow> string" where
  "message_of e = (case e of JsError m \<Rightarrow> m | NonError s \<Rightarrow> s)"

definition transient_marker :: "string \<Rightarrow> bool" where
  "transient_marker m =
     (js_includes m ''503'' \<or> js_includes (toLowerCase m) ''overloaded'' \<or> js_includes m ''429'')"

text \<open>
  The events of a run with \<open>n\<close> invocations in which invocation \<open>i\<close> (counted from 1)
  is followed by the retry message and a wait of \<open>2^i \<times> 15\<close> seconds, for each \<open>i\<close> below
  \<open>n\<close>.
\<close>

definition backoff_trace :: "nat \<Rightarrow> retry_event list" where
  "backoff_trace n =
     concat (map (\<lambda>i. [Invoke, RetryMessage (retryMsg (2 ^ i * 15) i), Delay (2 ^ i * 15 * 1000)])
               [1..<n]) @ [Invoke]"

subsection \<open>Scene pipeline\<close>

text \<open>
  What the image call of prompt number \<open>i\<close> alone determines: the \<open>src\<close> and \<open>error\<close>
  of its scene, the scene, and the events of its turn of the loop.
\<close>

definition image_result :: "backend \<Rightarrow> string \<Rightarrow> character list \<Rightarrow> nat \<Rightarrow> string option \<times> string option" where
  "image_result be model cs i =
     (case fst (withRetry (image be i)) of
        Inl e \<Rightarrow> (None, Some (shown (parseErrorMessage e)))
      | Inr response \<Rightarrow>
          read_image (model = ''gemini-2.5-flash-image'' \<or> forceNanoBanana cs) response)"

definition scene_at :: "backend \<Rightarrow> string list \<Rightarrow> string \<Rightarrow> character list \<Rightarrow> nat \<Rightarrow> scene" where
  "scene_at be prompts model cs i =
     mk_scene (prompts ! i) (fst (image_result be model cs i)) (snd (image_result be model cs i))"

definition block_at :: "backend \<Rightarrow> string list \<Rightarrow> nat \<Rightarrow> pipeline_event list" where
  "block_at be prompts i =
     [Progress (''Generating image '' @ show_nat (i + 1) @ '' of '' @ show_nat (length prompts) @ ''...''),
      ImageCall i (snd (withRetry (image be i)))]
     @ (if i < length prompts - 1
        then [Progress ''Pausing to avoid rate limits...'', Pause 15000] else [])"

fun pauses :: "pipeline_event list \<Rightarrow> nat list" where
  "pauses [] = []"
| "pauses (Pause ms # es) = ms # pauses es"
| "pauses (e # es) = pauses es"

definition is_pause :: "pipeline_event \<Rightarrow> bool" where
  "is_pause e = (case e of Pause ms \<Rightarrow> True | _ \<Rightarrow> False)"

text \<open>The prompts of the breakdown reply, when it is an array.\<close>

definition breakdown_prompts :: "backend \<Rightarrow> nat \<Rightarrow> string list" where
  "breakdown_prompts be sceneCount =
     (case fst (withRetry (breakdown be sceneCount)) of
        Inr (Reply (StrArray ps)) \<Rightarrow> ps
      | _ \<Rightarrow> [])"

subsection \<open>Scene tree\<close>

text \<open>Index alignment of a generation, and the tree shape of a Scene sequence.\<close>

definition aligned :: "generationItem \<Rightarrow> bool" where
  "aligned item = (length (videoStates item) = length (imageSet item))"

definition tree_ok :: "scene list \<Rightarrow> bool" where
  "tree_ok scenes =
     list_all (\<lambda>s. case isCameraAngleFor s of
                      None \<Rightarrow> True
                    | Some p \<Rightarrow> p < length scenes \<and> isCameraAngleFor (scenes ! p) = None) scenes"

text \<open>
  The indices below \<open>n\<close> that a deletion keeps, in order, and the position that a kept
  index \<open>p\<close> has afterwards.
\<close>

definition kept :: "nat list \<Rightarrow> nat \<Rightarrow> nat list" where
  "kept removed n = filter (\<lambda>i. i \<notin> set removed) [0..<n]"

definition new_pos :: "nat list \<Rightarrow> nat \<Rightarrow> nat" where
  "new_pos removed p = length (kept removed p)"

text \<open>The indices that deleting the scene at \<open>sceneIndex\<close> removes.\<close>

definition removed_by :: "scene list \<Rightarrow> nat \<Rightarrow> nat list" where
  "removed_by scenes sceneIndex =
     finalIndicesToRemove scenes (initialIndicesToRemove scenes sceneIndex (scenes ! sceneIndex))"

text \<open>
  The handlers on a history that holds one generation: the generation afterwards, \<open>None\<close>
  when the history is not a single generation then.
\<close>

definition only_item :: "generationItem list option \<Rightarrow> generationItem option" where
  "only_item h = (case h of Some [item] \<Rightarrow> Some item | _ \<Rightarrow> None)"

section \<open>Example inputs\<close>

text \<open>An operation that always rejects with the same message, and one that succeeds on its third invocation.\<close>

definition always_failing :: "string \<Rightarrow> nat \<Rightarrow> js_thrown + unit" where
  "always_failing m k = Inl (JsError m)"

definition failing_twice :: "string \<Rightarrow> nat \<Rightarrow> js_thrown + string" where
  "failing_twice m k = (if k < 2 then Inl (JsError m) else Inr ''done'')"

text \<open>
  A backend whose speech synthesis is overloaded and whose video job is done at once, and a
  scene with an image.
\<close>

definition mute_backend :: video_backend where
  "mute_backend =
     \<lparr>video_key = Some ''key'',
      tts = Inl (JsError ''503 overloaded''),
      base64ToBytes = (\<lambda>b. Inr b),
      createObjectURL = (\<lambda>b. ''blob:'' @ b),
      generateVideos = (\<lambda>k. Inr \<lparr>op_done = True, op_error = None,
                                     op_video = Some (Some ''https://video.example/1'', ''video-1'')\<rparr>),
      getVideosOperation = (\<lambda>n k. Inl (JsError ''not polled'')),
      download = (\<lambda>u. Inr \<lparr>ok = True, http_status = 200, statusText = ''OK'', blob = ''mp4''\<rparr>)\<rparr>"

definition garden_scene :: scene where
  "garden_scene = mk_scene ''a robot explores a garden'' (Some ''png'') None"

text \<open>
  A backend that answers every breakdown request with three prompts, whatever count was
  asked for, and every image call with an image.
\<close>

definition short_backend :: backend where
  "short_backend =
     \<lparr>API_KEY = Some ''key'',
      breakdown = (\<lambda>n k. Inr (Reply (StrArray [''a robot'', ''a garden'', ''a sunset'']))),
      image = (\<lambda>i k. Inr \<lparr>parts = [Some (Some ''png'')], generatedImages = []\<rparr>)\<rparr>"

text \<open>A backend whose second image call is answered without an image.\<close>

definition filtered_backend :: backend where
  "filtered_backend =
     \<lparr>API_KEY = Some ''key'',
      breakdown = (\<lambda>n k. Inr (Reply (StrArray [''a robot'', ''a garden'', ''a sunset'']))),
      image = (\<lambda>i k. Inr \<lparr>parts = (if i = 1 then [] else [Some (Some ''png'')]),
                             generatedImages = []\<rparr>)\<rparr>"

text \<open>
  A backend whose second image call is answered with a part that has \<open>inlineData\<close>
  without \<open>data\<close>.
\<close>

definition dataless_backend :: backend where
  "dataless_backend =
     \<lparr>API_KEY = Some ''key'',
      breakdown = (\<lambda>n k. Inr (Reply (StrArray [''a robot'', ''a garden'', ''a sunset'']))),
      image = (\<lambda>i k. Inr \<lparr>parts = (if i = 1 then [Some None] else [Some (Some ''png'')]),
                             generatedImages = []\<rparr>)\<rparr>"

text \<open>Scenes with an image: a root, and a camera angle of the scene at an index.\<close>

definition root_scene :: "string \<Rightarrow> scene" where
  "root_scene p = mk_scene p (Some ''png'') None"

definition angle_scene :: "string \<Rightarrow> nat \<Rightarrow> scene" where
  "angle_scene p k = (mk_scene p (Some ''png'') None)\<lparr>isCameraAngleFor := Some k\<rparr>"

definition item_of :: "scene list \<Rightarrow> videoState list \<Rightarrow> generationItem" where
  "item_of scenes states =
     \<lparr>gi_id = 1, gi_prompt = ''a robot explores a garden'', imageSet = scenes, videoStates = states,
      aspectRatio = ''16:9'', imageStyle = ''Illustration'', genre = ''General'', characters = [],
      imageModel = ''gemini-2.5-flash-image''\<rparr>"

text \<open>A video state with one finished clip.\<close>

definition filmed :: videoState where
  "filmed = getInitialVideoState
     \<lparr>status := Success,
      clips := [\<lparr>videoUrl = Some ''blob:clip'', audioUrl = None, videoObject = ''video-1'',
                 audioBase64 = None\<rparr>]\<rparr>"

text \<open>
  Two roots, the second with one camera angle; the first has a finished clip. The frame
  extraction succeeds.
\<close>

definition trio_item :: generationItem where
  "trio_item =
     item_of [root_scene ''A'', root_scene ''B'', angle_scene ''B back'' 1]
             [filmed, getInitialVideoState, getInitialVideoState]"

definition frame_ok :: "string \<Rightarrow> js_thrown + string" where
  "frame_ok url = Inr ''frame''"

text \<open>
  Eleven scenes: roots at 0 to 4, a root at 5 with camera angles at 6 and 7, a root at 8 and
  a root at 9 with a camera angle at 10.
\<close>

definition eleven_item :: generationItem where
  "eleven_item =
     item_of [root_scene ''0'', root_scene ''1'', root_scene ''2'', root_scene ''3'', root_scene ''4'',
              root_scene ''5'', angle_scene ''5 back'' 5, angle_scene ''5 side'' 5,
              root_scene ''8'', root_scene ''9'', angle_scene ''9 back'' 9]
             (replicate 11 getInitialVideoState)"



text \<open>
  A root with one camera angle, followed by a second root; and what becomes of the history
  when the user deletes the first scene of generation 1 and confirms.
\<close>

definition late_root_item :: generationItem where
  "late_root_item =
     item_of [root_scene ''0'', angle_scene ''0 back'' 0, root_scene ''2'']
             (replicate 3 getInitialVideoState)"

definition delete_first :: "generationItem list \<Rightarrow> generationItem list" where
  "delete_first h = (case handleDeleteScene (\<lambda>message. True) h 1 0 of Some h' \<Rightarrow> h' | None \<Rightarrow> h)"

text \<open>Another generation, with a single scene.\<close>

definition solo_item :: generationItem where
  "solo_item = (item_of [root_scene ''solo''] [getInitialVideoState])\<lparr>gi_id := 2\<rparr>"

text \<open>A backend of the camera-angle pipeline that answers every call.\<close>

definition studio_backend :: angle_backend where
  "studio_backend =
     \<lparr>angle_key = Some ''key'',
      outpaint = (\<lambda>k. Inr \<lparr>parts = [Some (Some ''wide'')], generatedImages = []\<rparr>),
      analysis = Inr (map_of [(''back_view_prompt'', ''Render the scene from behind.''),
                              (''side_view_prompt'', ''Render the scene from the left.'')]),
      angle_image = (\<lambda>i k. Inr \<lparr>parts = [Some (Some ''angle'')], generatedImages = []\<rparr>)\<rparr>"

definition yes :: "string \<Rightarrow> bool" where
  "yes message = True"

section \<open>The retry policy\<close>

lemma retryMsg_30: "retryMsg 30 1 = ''Model is busy. Retrying in 30s... (Attempt 1/3)''"
  by code_simp

lemma retryMsg_60: "retryMsg 60 2 = ''Model is busy. Retrying in 60s... (Attempt 2/3)''"
  by code_simp

lemma withRetry_loop_3: "withRetry_loop apiCall 3 tr = (Inl (JsError ''API call failed after multiple retries.''), tr)"
  by (subst withRetry_loop.simps) (simp add: maxRetries_def)

lemma withRetry_loop_2:
  "withRetry_loop apiCall 2 tr =
     (case apiCall 2 of Inr v \<Rightarrow> (Inr v, tr @ [Invoke]) | Inl e \<Rightarrow> (Inl e, tr @ [Invoke]))"
  by (subst withRetry_loop.simps) (simp add: maxRetries_def split: sum.split)

lemma withRetry_loop_1:
  "withRetry_loop apiCall 1 tr =
     (case apiCall 1 of
        Inr v \<Rightarrow> (Inr v, tr @ [Invoke])
      | Inl e \<Rightarrow>
          (if isRetryable e
           then withRetry_loop apiCall 2 (tr @ [Invoke, RetryMessage (retryMsg 60 2), Delay 60000])
           else (Inl e, tr @ [Invoke])))"
  by (subst withRetry_loop.simps) (simp add: maxRetries_def numeral_2_eq_2[symmetric] split: sum.split)

lemma withRetry_loop_0:
  "withRetry_loop apiCall 0 tr =
     (case apiCall 0 of
        Inr v \<Rightarrow> (Inr v, tr @ [Invoke])
      | Inl e \<Rightarrow>
          (if isRetryable e
           then withRetry_loop apiCall 1 (tr @ [Invoke, RetryMessage (retryMsg 30 1), Delay 30000])
           else (Inl e, tr @ [Invoke])))"
  by (subst withRetry_loop.simps) (simp add: maxRetries_def split: sum.split)

lemma withRetry_cases:
  "withRetry apiCall =
     (case apiCall 0 of
        Inr v \<Rightarrow> (Inr v, [Invoke])
      | Inl e0 \<Rightarrow>
          (if \<not> isRetryable e0 then (Inl e0, [Invoke])
           else (case apiCall 1 of
                   Inr v \<Rightarrow> (Inr v, [Invoke, RetryMessage (retryMsg 30 1), Delay 30000, Invoke])
                 | Inl e1 \<Rightarrow>
                     (if \<not> isRetryable e1
                      then (Inl e1, [Invoke, RetryMessage (retryMsg 30 1), Delay 30000, Invoke])
                      else (case apiCall 2 of
                              Inr v \<Rightarrow> (Inr v, [Invoke, RetryMessage (retryMsg 30 1), Delay 30000,
                                                Invoke, RetryMessage (retryMsg 60 2), Delay 60000, Invoke])
                            | Inl e2 \<Rightarrow> (Inl e2, [Invoke, RetryMessage (retryMsg 30 1), Delay 30000,
                                                Invoke, RetryMessage (retryMsg 60 2), Delay 60000, Invoke]))))))"
  unfolding withRetry_def
  by (simp add: withRetry_loop_0 withRetry_loop_1[simplified] withRetry_loop_2 split: sum.split)

lemma isRetryable_iff: "isRetryable e = transient_marker (message_of e)"
  by (simp add: isRetryable_def transient_marker_def message_of_def Let_def)

lemma retryMsg_30_Suc: "retryMsg 30 (Suc 0) = ''Model is busy. Retrying in 30s... (Attempt 1/3)''"
  using retryMsg_30 by simp

lemma upt_1_2: "[Suc 0..<2] = [Suc 0]" by (simp add: upt_rec)
lemma upt_1_3: "[Suc 0..<3] = [Suc 0, 2]" by (simp add: upt_rec)

lemma backoff_trace_simps:
  "backoff_trace (Suc 0) = [Invoke]"
  "backoff_trace 2 = [Invoke, RetryMessage (retryMsg 30 1), Delay 30000, Invoke]"
  "backoff_trace 3 = [Invoke, RetryMessage (retryMsg 30 1), Delay 30000,
                      Invoke, RetryMessage (retryMsg 60 2), Delay 60000, Invoke]"
  by (simp_all add: backoff_trace_def upt_conv_Cons numeral_2_eq_2 [symmetric])

lemma invocations_simps:
  "invocations [Invoke] = 1"
  "invocations [Invoke, RetryMessage a, Delay b, Invoke] = 2"
  "invocations [Invoke, RetryMessage a, Delay b, Invoke, RetryMessage c, Delay d, Invoke] = 3"
  by (simp_all add: invocations_def)

text \<open>
  C6. \<open>withRetry\<close> invokes the operation at least once and at most three times. Its
  events are, in this order, invocation 1, then for each further invocation the retry
  message, the wait of \<open>2^i \<times> 15\<close> seconds after failed invocation \<open>i\<close> (30 s after the
  first, 60 s after the second) and the next invocation; nothing follows the last
  invocation, whose outcome is the result. An invocation is followed by another exactly
  when it is the first or second and fails with a message that carries a transient marker.
  So an operation that fails with a message holding 503 twice and then succeeds resolves
  with that success after three invocations and waits of 30 s and 60 s, a first failure
  with any of the three markers is followed by the wait of 30 s and a second invocation,
  and a first failure with none of the markers rejects with that failure after one
  invocation and no wait.
\<close>

theorem withRetry_policy:
  fixes apiCall :: "nat \<Rightarrow> js_thrown + 'a"
  shows
  "1 \<le> invocations (snd (withRetry apiCall)) \<and> invocations (snd (withRetry apiCall)) \<le> 3
   \<and> snd (withRetry apiCall) = backoff_trace (invocations (snd (withRetry apiCall)))
   \<and> fst (withRetry apiCall) = apiCall (invocations (snd (withRetry apiCall)) - 1)
   \<and> delays (snd (withRetry apiCall))
        = map (\<lambda>i. 2 ^ i * 15 * 1000) [1..<invocations (snd (withRetry apiCall))]
   \<and> (Suc i < invocations (snd (withRetry apiCall))
        \<longrightarrow> (\<exists>e. apiCall i = Inl e \<and> transient_marker (message_of e)))
   \<and> (apiCall 0 = Inl ea \<and> transient_marker (message_of ea)
        \<longrightarrow> 2 \<le> invocations (snd (withRetry apiCall)))
   \<and> (apiCall 0 = Inl ea \<and> transient_marker (message_of ea)
          \<and> apiCall 1 = Inl eb \<and> transient_marker (message_of eb)
        \<longrightarrow> invocations (snd (withRetry apiCall)) = 3)
   \<and> (apiCall 0 = Inl ea \<and> transient_marker (message_of ea)
          \<and> apiCall 1 = Inl eb \<and> \<not> transient_marker (message_of eb)
        \<longrightarrow> withRetry apiCall
              = (Inl eb, [Invoke, RetryMessage ''Model is busy. Retrying in 30s... (Attempt 1/3)'',
                          Delay 30000, Invoke]))
   \<and> (js_includes ma ''503'' \<and> js_includes mb ''503''
          \<and> apiCall 0 = Inl (JsError ma) \<and> apiCall 1 = Inl (JsError mb) \<and> apiCall 2 = Inr v
        \<longrightarrow> withRetry apiCall
              = (Inr v, [Invoke, RetryMessage ''Model is busy. Retrying in 30s... (Attempt 1/3)'',
                         Delay 30000,
                         Invoke, RetryMessage ''Model is busy. Retrying in 60s... (Attempt 2/3)'',
                         Delay 60000, Invoke])
            \<and> invocations (snd (withRetry apiCall)) = 3
            \<and> delays (snd (withRetry apiCall)) = [30000, 60000])
   \<and> ((ec = JsError mc \<or> ec = NonError mc) \<and> apiCall 0 = Inl ec
          \<and> (js_includes mc ''503'' \<or> js_includes (toLowerCase mc) ''overloaded''
               \<or> js_includes mc ''429'')
        \<longrightarrow> take 4 (snd (withRetry apiCall))
              = [Invoke, RetryMessage ''Model is busy. Retrying in 30s... (Attempt 1/3)'',
                 Delay 30000, Invoke])
   \<and> ((ed = JsError md \<or> ed = NonError md) \<and> apiCall 0 = Inl ed
          \<and> \<not> js_includes md ''503'' \<and> \<not> js_includes (toLowerCase md) ''overloaded''
          \<and> \<not> js_includes md ''429''
        \<longrightarrow> withRetry apiCall = (Inl ed, [Invoke])
            \<and> invocations (snd (withRetry apiCall)) = 1 \<and> delays (snd (withRetry apiCall)) = [])"
proof -
  have m503: "transient_marker (message_of (JsError m))" if "js_includes m ''503''" for m
    using that by (simp add: transient_marker_def message_of_def)
  have mc: "transient_marker (message_of ec)"
    if "ec = JsError mc \<or> ec = NonError mc"
       "js_includes mc ''503'' \<or> js_includes (toLowerCase mc) ''overloaded'' \<or> js_includes mc ''429''"
    using that by (auto simp: transient_marker_def message_of_def)
  have md: "\<not> transient_marker (message_of ed)"
    if "ed = JsError md \<or> ed = NonError md"
       "\<not> js_includes md ''503''" "\<not> js_includes (toLowerCase md) ''overloaded''"
       "\<not> js_includes md ''429''"
    using that by (auto simp: transient_marker_def message_of_def)
  note tr = backoff_trace_simps invocations_simps retryMsg_30 retryMsg_30_Suc retryMsg_60
  consider
      (ok0) v where "apiCall 0 = Inr v"
    | (bad0) e where "apiCall 0 = Inl e" "\<not> isRetryable e"
    | (ok1) e0 v where "apiCall 0 = Inl e0" "isRetryable e0" "apiCall 1 = Inr v"
    | (bad1) e0 e1 where "apiCall 0 = Inl e0" "isRetryable e0" "apiCall 1 = Inl e1" "\<not> isRetryable e1"
    | (ok2) e0 e1 v where "apiCall 0 = Inl e0" "isRetryable e0" "apiCall 1 = Inl e1" "isRetryable e1"
        "apiCall 2 = Inr v"
    | (bad2) e0 e1 e2 where "apiCall 0 = Inl e0" "isRetryable e0" "apiCall 1 = Inl e1" "isRetryable e1"
        "apiCall 2 = Inl e2"
    by (metis sum.exhaust)
  then show ?thesis
  proof cases
    case ok0
    then have w: "withRetry apiCall = (Inr v, [Invoke])" by (simp add: withRetry_cases)
    show ?thesis using ok0 by (auto simp: w tr)
  next
    case bad0
    then have w: "withRetry apiCall = (Inl e, [Invoke])" by (simp add: withRetry_cases)
    show ?thesis using bad0 m503 mc md by (auto simp: w tr isRetryable_iff)
  next
    case ok1
    then have w: "withRetry apiCall = (Inr v, [Invoke, RetryMessage (retryMsg 30 1), Delay 30000, Invoke])"
      by (simp add: withRetry_cases)
    show ?thesis using ok1 m503 mc md by (auto simp: w tr upt_1_2 isRetryable_iff)
  next
    case bad1
    then have w: "withRetry apiCall = (Inl e1, [Invoke, RetryMessage (retryMsg 30 1), Delay 30000, Invoke])"
      by (simp add: withRetry_cases)
    show ?thesis using bad1 m503 mc md by (auto simp: w tr upt_1_2 isRetryable_iff)
  next
    case ok2
    then have w: "withRetry apiCall = (Inr v, [Invoke, RetryMessage (retryMsg 30 1), Delay 30000,
        Invoke, RetryMessage (retryMsg 60 2), Delay 60000, Invoke])"
      by (simp add: withRetry_cases)
    have "i = 0 \<or> i = Suc 0" if "Suc i < 3" using that by arith
    then show ?thesis using ok2 m503 mc md
      by (auto simp: w tr upt_1_3 isRetryable_iff)
  next
    case bad2
    then have w: "withRetry apiCall = (Inl e2, [Invoke, RetryMessage (retryMsg 30 1), Delay 30000,
        Invoke, RetryMessage (retryMsg 60 2), Delay 60000, Invoke])"
      by (simp add: withRetry_cases)
    have "i = 0 \<or> i = Suc 0" if "Suc i < 3" using that by arith
    then show ?thesis using bad2 m503 mc md
      by (auto simp: w tr upt_1_3 isRetryable_iff)
  qed
qed

theorem withRetry_policy_witness:
  "js_includes ''503 Service Unavailable'' ''503''
   \<and> failing_twice ''503 Service Unavailable'' 0 = Inl (JsError ''503 Service Unavailable'')
   \<and> failing_twice ''503 Service Unavailable'' 1 = Inl (JsError ''503 Service Unavailable'')
   \<and> failing_twice ''503 Service Unavailable'' 2 = Inr ''done''
   \<and> withRetry (failing_twice ''503 Service Unavailable'')
       = (Inr ''done'', [Invoke, RetryMessage ''Model is busy. Retrying in 30s... (Attempt 1/3)'',
                        Delay 30000,
                        Invoke, RetryMessage ''Model is busy. Retrying in 60s... (Attempt 2/3)'',
                        Delay 60000, Invoke])
   \<and> invocations (snd (withRetry (failing_twice ''503 Service Unavailable''))) = 3
   \<and> delays (snd (withRetry (failing_twice ''503 Service Unavailable''))) = [30000, 60000]
   \<and> always_failing ''The model is OVERLOADED'' 0 = Inl (JsError ''The model is OVERLOADED'')
   \<and> js_includes (toLowerCase ''The model is OVERLOADED'') ''overloaded''
   \<and> take 4 (snd (withRetry (always_failing ''The model is OVERLOADED'')))
       = [Invoke, RetryMessage ''Model is busy. Retrying in 30s... (Attempt 1/3)'', Delay 30000, Invoke]
   \<and> always_failing ''Invalid API key'' 0 = Inl (JsError ''Invalid API key'')
   \<and> \<not> js_includes ''Invalid API key'' ''503''
   \<and> \<not> js_includes (toLowerCase ''Invalid API key'') ''overloaded''
   \<and> \<not> js_includes ''Invalid API key'' ''429''
   \<and> withRetry (always_failing ''Invalid API key'') = (Inl (JsError ''Invalid API key''), [Invoke])
   \<and> invocations (snd (withRetry (always_failing ''Invalid API key''))) = 1
   \<and> delays (snd (withRetry (always_failing ''Invalid API key''))) = []"
proof -
  have a: "js_includes ''503 Service Unavailable'' ''503''" by simp
  have c: "failing_twice ''503 Service Unavailable'' 0 = Inl (JsError ''503 Service Unavailable'')"
          "failing_twice ''503 Service Unavailable'' 1 = Inl (JsError ''503 Service Unavailable'')"
          "failing_twice ''503 Service Unavailable'' 2 = Inr ''done''"
    by (simp_all add: failing_twice_def)
  note g = withRetry_policy [where apiCall = "failing_twice ''503 Service Unavailable''"
      and ma = "''503 Service Unavailable''" and mb = "''503 Service Unavailable''" and v = "''done''",
      THEN conjunct2, THEN conjunct2, THEN conjunct2, THEN conjunct2, THEN conjunct2, THEN conjunct2,
      THEN conjunct2, THEN conjunct2, THEN conjunct2, THEN conjunct1]
  have r: "withRetry (failing_twice ''503 Service Unavailable'')
       = (Inr ''done'', [Invoke, RetryMessage ''Model is busy. Retrying in 30s... (Attempt 1/3)'',
                        Delay 30000,
                        Invoke, RetryMessage ''Model is busy. Retrying in 60s... (Attempt 2/3)'',
                        Delay 60000, Invoke])
            \<and> invocations (snd (withRetry (failing_twice ''503 Service Unavailable''))) = 3
            \<and> delays (snd (withRetry (failing_twice ''503 Service Unavailable''))) = [30000, 60000]"
    by (rule mp [OF g]) (intro conjI a c)
  have o1: "always_failing ''The model is OVERLOADED'' 0 = Inl (JsError ''The model is OVERLOADED'')"
    by (simp add: always_failing_def)
  have o2: "js_includes (toLowerCase ''The model is OVERLOADED'') ''overloaded''" by code_simp
  note h = withRetry_policy [where apiCall = "always_failing ''The model is OVERLOADED''"
      and ec = "JsError ''The model is OVERLOADED''" and mc = "''The model is OVERLOADED''",
      THEN conjunct2, THEN conjunct2, THEN conjunct2, THEN conjunct2, THEN conjunct2, THEN conjunct2,
      THEN conjunct2, THEN conjunct2, THEN conjunct2, THEN conjunct2, THEN conjunct1]
  have o: "take 4 (snd (withRetry (always_failing ''The model is OVERLOADED'')))
       = [Invoke, RetryMessage ''Model is busy. Retrying in 30s... (Attempt 1/3)'', Delay 30000, Invoke]"
    by (rule mp [OF h]) (intro conjI disjI1 refl o1 disjI2 [OF disjI1] o2)
  have k1: "always_failing ''Invalid API key'' 0 = Inl (JsError ''Invalid API key'')"
    by (simp add: always_failing_def)
  have k2: "\<not> js_includes ''Invalid API key'' ''503''" by simp
  have k3: "\<not> js_includes (toLowerCase ''Invalid API key'') ''overloaded''" by code_simp
  have k4: "\<not> js_includes ''Invalid API key'' ''429''" by simp
  note n = withRetry_policy [where apiCall = "always_failing ''Invalid API key''"
      and ed = "JsError ''Invalid API key''" and md = "''Invalid API key''",
      THEN conjunct2, THEN conjunct2, THEN conjunct2, THEN conjunct2, THEN conjunct2, THEN conjunct2,
      THEN conjunct2, THEN conjunct2, THEN conjunct2, THEN conjunct2, THEN conjunct2]
  have k: "withRetry (always_failing ''Invalid API key'') = (Inl (JsError ''Invalid API key''), [Invoke])
       \<and> invocations (snd (withRetry (always_failing ''Invalid API key''))) = 1
       \<and> delays (snd (withRetry (always_failing ''Invalid API key''))) = []"
    by (rule mp [OF n]) (intro conjI disjI1 refl k1 k2 k3 k4)
  show ?thesis
    by (intro conjI a c r [THEN conjunct1] r [THEN conjunct2, THEN conjunct1]
          r [THEN conjunct2, THEN conjunct2] o1 o2 o k1 k2 k3 k4 k [THEN conjunct1]
          k [THEN conjunct2, THEN conjunct1] k [THEN conjunct2, THEN conjunct2])
qed

text \<open>
  C7, as stated, fails: an operation that fails three times with a transient error is
  rejected with its own third error, not with the terminal error.
\<close>

theorem withRetry_exhausted_counterexample:
  "isRetryable (JsError ''503 Service Unavailable'')
   \<and> always_failing ''503 Service Unavailable'' 0 = Inl (JsError ''503 Service Unavailable'')
   \<and> always_failing ''503 Service Unavailable'' 1 = Inl (JsError ''503 Service Unavailable'')
   \<and> always_failing ''503 Service Unavailable'' 2 = Inl (JsError ''503 Service Unavailable'')
   \<and> invocations (snd (withRetry (always_failing ''503 Service Unavailable''))) = 3
   \<and> fst (withRetry (always_failing ''503 Service Unavailable'')) = Inl (JsError ''503 Service Unavailable'')
   \<and> fst (withRetry (always_failing ''503 Service Unavailable''))
        \<noteq> Inl (JsError ''API call failed after multiple retries.'')"
proof -
  have a: "isRetryable (JsError ''503 Service Unavailable'')" by (simp add: isRetryable_def)
  show ?thesis using a by (simp add: withRetry_cases always_failing_def invocations_def)
qed

text \<open>
  C7, amended. Whenever \<open>withRetry\<close> rejects, it rejects with the error of its last
  invocation, unchanged; in particular after three transient failures it rejects with the
  third error.
\<close>

theorem withRetry_propagates:
  fixes apiCall :: "nat \<Rightarrow> js_thrown + 'a"
  shows
  "(fst (withRetry apiCall) = Inl e
      \<longrightarrow> apiCall (invocations (snd (withRetry apiCall)) - 1) = Inl e)
   \<and> (apiCall 0 = Inl ea \<and> isRetryable ea \<and> apiCall 1 = Inl eb \<and> isRetryable eb
          \<and> apiCall 2 = Inl ec
        \<longrightarrow> fst (withRetry apiCall) = Inl ec \<and> invocations (snd (withRetry apiCall)) = 3)"
  by (auto simp: withRetry_cases invocations_def numeral_2_eq_2 split: sum.splits if_splits)

theorem withRetry_propagates_witness:
  "always_failing ''503 Service Unavailable'' 0 = Inl (JsError ''503 Service Unavailable'')
   \<and> isRetryable (JsError ''503 Service Unavailable'')
   \<and> fst (withRetry (always_failing ''503 Service Unavailable'')) = Inl (JsError ''503 Service Unavailable'')
   \<and> invocations (snd (withRetry (always_failing ''503 Service Unavailable''))) = 3
   \<and> always_failing ''503 Service Unavailable''
         (invocations (snd (withRetry (always_failing ''503 Service Unavailable''))) - 1)
       = Inl (JsError ''503 Service Unavailable'')"
proof -
  have a: "isRetryable (JsError ''503 Service Unavailable'')" by (simp add: isRetryable_def)
  have c: "always_failing ''503 Service Unavailable'' k = Inl (JsError ''503 Service Unavailable'')" for k
    by (simp add: always_failing_def)
  note g = withRetry_propagates [where apiCall = "always_failing ''503 Service Unavailable''"
      and e = "JsError ''503 Service Unavailable''" and ea = "JsError ''503 Service Unavailable''"
      and eb = "JsError ''503 Service Unavailable''" and ec = "JsError ''503 Service Unavailable''"]
  have r: "fst (withRetry (always_failing ''503 Service Unavailable'')) = Inl (JsError ''503 Service Unavailable'')
           \<and> invocations (snd (withRetry (always_failing ''503 Service Unavailable''))) = 3"
    by (rule mp [OF g [THEN conjunct2]]) (intro conjI a c)
  have l: "always_failing ''503 Service Unavailable''
         (invocations (snd (withRetry (always_failing ''503 Service Unavailable''))) - 1)
       = Inl (JsError ''503 Service Unavailable'')"
    by (rule mp [OF g [THEN conjunct1]]) (rule r [THEN conjunct1])
  show ?thesis by (intro conjI a c r [THEN conjunct1] r [THEN conjunct2] l)
qed

section \<open>The error normaliser\<close>

lemma pem_quota_example:
  "parseErrorMessage (JsError ''{\"error\":{\"message\":\"quota exceeded for project\"}}'')
     = Str ''Quota exceeded. quota exceeded for project''"
  by code_simp

lemma pem_blocked_example:
  "parseErrorMessage (JsError ''blocked by safety settings'') = Str contentPolicySentence"
  by code_simp

lemma pem_json_first_example:
  "parseErrorMessage (JsError ''{\"error\":{\"message\":\"blocked\"}}'') = Str ''blocked''"
  by code_simp

lemma pem_unparsable:
  "JSON_parse message = SyntaxError \<Longrightarrow> \<not> recognised message \<Longrightarrow> message \<noteq> []
     \<Longrightarrow> parseErrorMessage (JsError message) = Str message"
  by (simp add: parseErrorMessage_def match_message_def recognised_def Let_def)

lemma pem_nested:
  "JSON_parse message = Value parsed \<Longrightarrow> nested_message parsed = Some (JStr m)
     \<Longrightarrow> parseErrorMessage (JsError message)
         = Str (if js_includes (toLowerCase m) ''quota'' then ''Quota exceeded. '' @ m else m)"
  by (simp add: parseErrorMessage_def)

text \<open>
  C8, amended. The JSON check comes first: a message that parses with a non-empty string
  at \<open>error.message\<close> gives that string, after \<open>Quota exceeded.\<close> when it mentions quota,
  whatever substrings the message holds. The quota example starts with \<open>Quota exceeded.\<close>,
  the safety example gives the content-policy sentence, and a non-empty message that is no
  JSON and holds none of the known substrings is returned verbatim.
\<close>

theorem parseErrorMessage_order:
  "parseErrorMessage (JsError ''{\"error\":{\"message\":\"quota exceeded for project\"}}'')
     = Str ''Quota exceeded. quota exceeded for project''
   \<and> take 15 ''Quota exceeded. quota exceeded for project'' = ''Quota exceeded.''
   \<and> parseErrorMessage (JsError ''blocked by safety settings'') = Str contentPolicySentence
   \<and> parseErrorMessage (JsError ''{\"error\":{\"message\":\"blocked\"}}'') = Str ''blocked''
   \<and> (JSON_parse jtext = Value parsed \<and> nested_message parsed = Some (JStr m)
        \<longrightarrow> parseErrorMessage (JsError jtext)
            = Str (if js_includes (toLowerCase m) ''quota'' then ''Quota exceeded. '' @ m else m))
   \<and> (JSON_parse message = SyntaxError \<and> \<not> recognised message \<and> message \<noteq> []
        \<longrightarrow> parseErrorMessage (JsError message) = Str message)"
  using pem_quota_example pem_blocked_example pem_json_first_example pem_unparsable pem_nested
  by simp

theorem parseErrorMessage_order_witness:
  "JSON_parse ''connection reset by peer'' = SyntaxError
   \<and> \<not> recognised ''connection reset by peer''
   \<and> ''connection reset by peer'' \<noteq> []
   \<and> parseErrorMessage (JsError ''connection reset by peer'') = Str ''connection reset by peer''
   \<and> JSON_parse ''{\"error\":{\"message\":\"model not ready\"}}''
        = Value (JObj [(''error'', JObj [(''message'', JStr ''model not ready'')])])
   \<and> nested_message (JObj [(''error'', JObj [(''message'', JStr ''model not ready'')])])
        = Some (JStr ''model not ready'')
   \<and> parseErrorMessage (JsError ''{\"error\":{\"message\":\"model not ready\"}}'') = Str ''model not ready''"
proof -
  have a: "JSON_parse ''connection reset by peer'' = SyntaxError" by code_simp
  have b: "\<not> recognised ''connection reset by peer''" by code_simp
  have c: "''connection reset by peer'' \<noteq> []" by simp
  have d: "JSON_parse ''{\"error\":{\"message\":\"model not ready\"}}''
        = Value (JObj [(''error'', JObj [(''message'', JStr ''model not ready'')])])" by code_simp
  have e: "nested_message (JObj [(''error'', JObj [(''message'', JStr ''model not ready'')])])
        = Some (JStr ''model not ready'')" by code_simp
  have f: "\<not> js_includes (toLowerCase ''model not ready'') ''quota''" by code_simp
  note g = parseErrorMessage_order [where message = "''connection reset by peer''"
      and jtext = "''{\"error\":{\"message\":\"model not ready\"}}''"
      and parsed = "JObj [(''error'', JObj [(''message'', JStr ''model not ready'')])]"
      and m = "''model not ready''"]
  have r1: "parseErrorMessage (JsError ''connection reset by peer'') = Str ''connection reset by peer''"
    by (rule mp [OF g [THEN conjunct2, THEN conjunct2, THEN conjunct2, THEN conjunct2, THEN conjunct2]])
       (intro conjI a b c)
  have r2: "parseErrorMessage (JsError ''{\"error\":{\"message\":\"model not ready\"}}'')
      = Str (if js_includes (toLowerCase ''model not ready'') ''quota''
             then ''Quota exceeded. '' @ ''model not ready'' else ''model not ready'')"
    by (rule mp [OF g [THEN conjunct2, THEN conjunct2, THEN conjunct2, THEN conjunct2, THEN conjunct1]])
       (intro conjI d e)
  have r3: "parseErrorMessage (JsError ''{\"error\":{\"message\":\"model not ready\"}}'') = Str ''model not ready''"
    using r2 f by (simp only: if_False)
  show ?thesis by (intro conjI a b c d e r1 r3)
qed

text \<open>
  C8, as stated, fails at the empty message: it is no JSON and holds no known substring,
  and the output is the generic sentence, not the message.
\<close>

theorem parseErrorMessage_empty_counterexample:
  "JSON_parse [] = SyntaxError \<and> \<not> recognised [] \<and> parseErrorMessage (JsError []) = Str defaultMessage
   \<and> Str defaultMessage \<noteq> Str []"
  by code_simp

section \<open>Video assembly: a failed audio branch\<close>

lemma audioDataPromise_resolves: "audioDataPromise be audioOpts \<noteq> Inl e"
  by (simp add: audioDataPromise_def split: option.split sum.split)

lemma audio_fails_nulls: "audio_fails be opts \<Longrightarrow> audioDataPromise be (Some opts) = Inr (None, None)"
  by (simp add: audio_fails_def audioDataPromise_def split: sum.splits option.splits)

lemma audio_fails_as_none:
  "audio_fails be opts \<Longrightarrow>
     generateVideoFromScene fuel be scn (Some opts) = generateVideoFromScene fuel be scn None"
proof -
  assume "audio_fails be opts"
  then have a: "audioDataPromise be (Some opts) = Inr (None, None)" by (rule audio_fails_nulls)
  have b: "audioDataPromise be None = Inr (None, None)" by (simp add: audioDataPromise_def)
  show ?thesis by (simp only: generateVideoFromScene_def a b)
qed

lemma no_audio_nulls:
  "generateVideoFromScene fuel be scn None = Some (Inr clip) \<Longrightarrow>
     audioUrl clip = None \<and> audioBase64 clip = None"
  by (auto simp: generateVideoFromScene_def audioDataPromise_def
           split: sum.splits option.splits if_splits prod.splits)

text \<open>
  C10. The audio branch never rejects. When it fails (speech synthesis or decoding
  throws) its result is null for both the audio URL and the audio payload, and a call whose
  video job succeeds resolves all the same, with the video and both audio fields null.
\<close>

theorem audio_failure_is_local:
  "audioDataPromise be audioOpts \<noteq> Inl e
   \<and> (audio_fails be opts \<longrightarrow> audioDataPromise be (Some opts) = Inr (None, None))
   \<and> (audio_fails be opts \<and> generateVideoFromScene fuel be scn None = Some (Inr clip)
        \<longrightarrow> generateVideoFromScene fuel be scn (Some opts) = Some (Inr clip)
            \<and> audioUrl clip = None \<and> audioBase64 clip = None)"
  using audioDataPromise_resolves audio_fails_nulls audio_fails_as_none no_audio_nulls
  by metis

lemma mute_tts_fails: "audio_fails mute_backend (TtsAudio ''Hello there'')"
  by code_simp

lemma mute_video:
  "generateVideoFromScene 0 mute_backend (Some garden_scene) None
     = Some (Inr \<lparr>videoUrl = Some ''blob:mp4'', audioUrl = None, videoObject = ''video-1'',
                   audioBase64 = None\<rparr>)"
  by code_simp

theorem audio_failure_is_local_witness:
  "audio_fails mute_backend (TtsAudio ''Hello there'')
   \<and> generateVideoFromScene 0 mute_backend (Some garden_scene) None
       = Some (Inr \<lparr>videoUrl = Some ''blob:mp4'', audioUrl = None, videoObject = ''video-1'',
                     audioBase64 = None\<rparr>)
   \<and> generateVideoFromScene 0 mute_backend (Some garden_scene) (Some (TtsAudio ''Hello there''))
       = Some (Inr \<lparr>videoUrl = Some ''blob:mp4'', audioUrl = None, videoObject = ''video-1'',
                     audioBase64 = None\<rparr>)
   \<and> audioDataPromise mute_backend (Some (TtsAudio ''Hello there'')) = Inr (None, None)"
proof -
  note g = audio_failure_is_local [where be = mute_backend and opts = "TtsAudio ''Hello there''"
      and fuel = 0 and scn = "Some garden_scene"
      and clip = "\<lparr>videoUrl = Some ''blob:mp4'', audioUrl = None, videoObject = ''video-1'',
                     audioBase64 = None\<rparr>"]
  have r1: "audioDataPromise mute_backend (Some (TtsAudio ''Hello there'')) = Inr (None, None)"
    by (rule mp [OF g [THEN conjunct2, THEN conjunct1]]) (rule mute_tts_fails)
  have r2: "generateVideoFromScene 0 mute_backend (Some garden_scene) (Some (TtsAudio ''Hello there''))
       = Some (Inr \<lparr>videoUrl = Some ''blob:mp4'', audioUrl = None, videoObject = ''video-1'',
                     audioBase64 = None\<rparr>)"
    by (rule mp [OF g [THEN conjunct2, THEN conjunct2], THEN conjunct1])
       (intro conjI mute_tts_fails mute_video)
  show ?thesis by (intro conjI mute_tts_fails mute_video r1 r2)
qed

section \<open>The scene pipeline\<close>

subsection \<open>Errors shown are never empty\<close>

lemma match_message_nonempty: "match_message m \<noteq> []"
  by (simp add: match_message_def Let_def invalidKeySentence_def contentPolicySentence_def
      quotaSentence_def unavailableSentence_def keyAccessSentence_def defaultMessage_def)

lemma nested_message_truthy: "nested_message j = Some m \<Longrightarrow> truthy m"
  by (auto simp: nested_message_def split: option.splits if_splits)

lemma shown_nonempty: "shown (parseErrorMessage e) \<noteq> []"
proof (cases e)
  case (NonError v)
  then show ?thesis by (simp add: parseErrorMessage_def shown_def defaultMessage_def)
next
  case (JsError message)
  show ?thesis
  proof (cases "JSON_parse message")
    case (Value parsed)
    show ?thesis
    proof (cases "nested_message parsed")
      case None
      with Value JsError show ?thesis
        by (simp add: parseErrorMessage_def shown_def match_message_nonempty)
    next
      case (Some m)
      then have "truthy m" by (rule nested_message_truthy)
      with Some Value JsError show ?thesis
        by (cases m) (simp_all add: parseErrorMessage_def shown_def)
    qed
  next
    case SyntaxError
    with JsError show ?thesis by (simp add: parseErrorMessage_def shown_def match_message_nonempty)
  next
    case Unrepresentable
    with JsError show ?thesis by (simp add: parseErrorMessage_def shown_def)
  qed
qed

subsection \<open>The image loop\<close>

lemma generateSingleImage_plain:
  "js_truthy key \<Longrightarrow>
     generateSingleImage key model cs None None (Inr []) remote
       = (Inr (case fst (withRetry remote) of
                 Inl e \<Rightarrow> (None, Some (shown (parseErrorMessage e)))
               | Inr response \<Rightarrow>
                   read_image (model = ''gemini-2.5-flash-image'' \<or> forceNanoBanana cs) response),
          snd (withRetry remote))"
  by (cases "withRetry remote")
     (simp add: generateSingleImage_def getAiClient_def js_truthy_def split: sum.split)

lemma loop_closed_form:
  assumes key: "js_truthy (API_KEY be)"
  shows "i \<le> length prompts \<Longrightarrow>
     generateImagesFromPrompts_loop be prompts model cs i scenes trace
       = (Inr (scenes @ map (scene_at be prompts model cs) [i..<length prompts]),
          trace @ concat (map (block_at be prompts) [i..<length prompts]))"
proof (induction "length prompts - i" arbitrary: i scenes trace)
  case 0
  then have "i = length prompts" by simp
  then show ?case by (subst generateImagesFromPrompts_loop.simps) simp
next
  case (Suc n)
  then have lt: "i < length prompts" by simp
  have n: "n = length prompts - Suc i" using Suc.hyps(2) by simp
  have le: "Suc i \<le> length prompts" using lt by simp
  have up: "[i..<length prompts] = i # [Suc i..<length prompts]" using lt by (simp add: upt_conv_Cons)
  obtain s e where r: "image_result be model cs i = (s, e)" by (cases "image_result be model cs i")
  have single: "generateSingleImage (API_KEY be) model cs None None (Inr []) (image be i)
      = (Inr (s, e), snd (withRetry (image be i)))"
    using generateSingleImage_plain [OF key, of model cs "image be i"] r
    by (simp add: image_result_def)
  show ?case
    apply (subst generateImagesFromPrompts_loop.simps)
    apply (simp add: lt single Let_def Suc.hyps(1) [OF n le] up scene_at_def r block_at_def)
    done
qed

lemma pauses_append: "pauses (xs @ ys) = pauses xs @ pauses ys"
  by (induction xs rule: pauses.induct) simp_all

lemma pauses_block: "pauses (block_at be prompts i) = (if i < length prompts - 1 then [15000] else [])"
  by (simp add: block_at_def)

lemma pauses_blocks:
  "pauses (concat (map (block_at be prompts) [0..<m])) = replicate (min m (length prompts - 1)) 15000"
proof (induction m)
  case 0
  show ?case by simp
next
  case (Suc m)
  show ?case
  proof (cases "m < length prompts - 1")
    case True
    then have "min (Suc m) (length prompts - 1) = Suc (min m (length prompts - 1))" by simp
    with True Suc show ?thesis
      by (simp add: pauses_append pauses_block replicate_append_same)
  next
    case False
    then have "min (Suc m) (length prompts - 1) = min m (length prompts - 1)" by simp
    with False Suc show ?thesis by (simp add: pauses_append pauses_block)
  qed
qed

lemma last_blocks:
  "0 < length prompts \<Longrightarrow>
     last (concat (map (block_at be prompts) [0..<length prompts]))
       = ImageCall (length prompts - 1) (snd (withRetry (image be (length prompts - 1))))"
proof -
  assume pos: "0 < length prompts"
  then have "[0..<length prompts] = [0..<length prompts - 1] @ [length prompts - 1]"
    by (cases "length prompts") simp_all
  then have "concat (map (block_at be prompts) [0..<length prompts])
      = concat (map (block_at be prompts) [0..<length prompts - 1]) @ block_at be prompts (length prompts - 1)"
    by (metis concat.simps(1) concat.simps(2) concat_append list.simps(8) list.simps(9) map_append self_append_conv)
  then show ?thesis by (simp add: block_at_def)
qed

lemma rejected_image_result:
  "fst (withRetry (image be i)) = Inl e \<Longrightarrow>
     image_result be model cs i = (None, Some (shown (parseErrorMessage e)))"
  by (simp add: image_result_def)

lemma generateImagesFromPrompts_closed_form:
  assumes key: "js_truthy (API_KEY be)"
  shows "generateImagesFromPrompts be prompts model cs
      = (Inr (map (scene_at be prompts model cs) [0..<length prompts]),
         concat (map (block_at be prompts) [0..<length prompts]))"
  using loop_closed_form [OF key, of 0 prompts model cs "[]" "[]"]
  by (simp add: generateImagesFromPrompts_def)

text \<open>
  With the API key set (without it the pipeline fails before the loop), the loop returns
  one scene per prompt, in order, and the scene of prompt \<open>i\<close> is determined by the image
  call of prompt \<open>i\<close> alone: no outcome of one call ends the loop or changes another scene.
  When the call is rejected after the retries, the scene has a null image and a non-empty
  error. Each turn but the last is followed by one wait of 15 seconds: the waits are
  \<open>n - 1\<close> times 15000 ms and the run does not end with a wait.
\<close>

lemma image_loop_is_local:
  assumes key: "js_truthy (API_KEY be)"
  shows
  "fst (generateImagesFromPrompts be prompts model cs)
     = Inr (map (scene_at be prompts model cs) [0..<length prompts])
   \<and> snd (generateImagesFromPrompts be prompts model cs)
     = concat (map (block_at be prompts) [0..<length prompts])
   \<and> pauses (snd (generateImagesFromPrompts be prompts model cs))
     = replicate (length prompts - 1) 15000
   \<and> (prompts \<noteq> [] \<longrightarrow> \<not> is_pause (last (snd (generateImagesFromPrompts be prompts model cs))))
   \<and> prompt (scene_at be prompts model cs i) = prompts ! i
   \<and> (src (scene_at be prompts model cs i), error (scene_at be prompts model cs i))
     = image_result be model cs i
   \<and> (fst (withRetry (image be i)) = Inl e
        \<longrightarrow> src (scene_at be prompts model cs i) = None
            \<and> error (scene_at be prompts model cs i) = Some (shown (parseErrorMessage e))
            \<and> shown (parseErrorMessage e) \<noteq> [])"
proof -
  have g: "generateImagesFromPrompts be prompts model cs
      = (Inr (map (scene_at be prompts model cs) [0..<length prompts]),
         concat (map (block_at be prompts) [0..<length prompts]))"
    by (rule generateImagesFromPrompts_closed_form [OF key])
  have p: "pauses (snd (generateImagesFromPrompts be prompts model cs))
      = replicate (length prompts - 1) 15000"
    by (simp add: g pauses_blocks)
  have l: "prompts \<noteq> [] \<longrightarrow> \<not> is_pause (last (snd (generateImagesFromPrompts be prompts model cs)))"
    by (simp add: g last_blocks is_pause_def)
  have f: "fst (withRetry (image be i)) = Inl e
        \<longrightarrow> src (scene_at be prompts model cs i) = None
            \<and> error (scene_at be prompts model cs i) = Some (shown (parseErrorMessage e))
            \<and> shown (parseErrorMessage e) \<noteq> []"
    using rejected_image_result [of be i e model cs]
    by (simp add: scene_at_def mk_scene_def shown_nonempty)
  show ?thesis using g p l f by (simp add: scene_at_def mk_scene_def)
qed

lemma filtered_scenes:
  "map (scene_at filtered_backend [''a robot'', ''a garden'', ''a sunset''] ''gemini-2.5-flash-image'' [])
      [0..<length [''a robot'', ''a garden'', ''a sunset'']]
     = [mk_scene ''a robot'' (Some ''png'') None,
        mk_scene ''a garden'' None (Some noImageMessage),
        mk_scene ''a sunset'' (Some ''png'') None]"
  by code_simp

text \<open>
  C9 fails for an image call that is answered with a part whose \<open>inlineData\<close> carries
  no \<open>data\<close>: the image generation has failed, and its scene has a null image but no error
  message. The loop goes on and waits as claimed. An answer without any \<open>inlineData\<close>
  part does get the error message, and so does, on the other image path, an answer without
  image bytes.
\<close>

theorem dataless_image_has_no_error:
  "image dataless_backend 1 0 = Inr \<lparr>parts = [Some None], generatedImages = []\<rparr>
   \<and> fst (generateImagesFromPrompts dataless_backend [''a robot'', ''a garden'', ''a sunset'']
             ''gemini-2.5-flash-image'' [])
       = Inr [mk_scene ''a robot'' (Some ''png'') None,
              mk_scene ''a garden'' None None,
              mk_scene ''a sunset'' (Some ''png'') None]
   \<and> src (mk_scene ''a garden'' None None) = None
   \<and> error (mk_scene ''a garden'' None None) = None
   \<and> pauses (snd (generateImagesFromPrompts dataless_backend [''a robot'', ''a garden'', ''a sunset'']
             ''gemini-2.5-flash-image'' []))
       = [15000, 15000]
   \<and> read_image True \<lparr>parts = [], generatedImages = []\<rparr> = (None, Some noImageMessage)
   \<and> read_image True \<lparr>parts = [None], generatedImages = []\<rparr> = (None, Some noImageMessage)
   \<and> read_image False \<lparr>parts = [], generatedImages = [None]\<rparr> = (None, Some noImageMessage)
   \<and> read_image False \<lparr>parts = [], generatedImages = [Some []]\<rparr> = (None, Some noImageMessage)"
  by code_simp

subsection \<open>The scene pipeline\<close>

lemma generatePromptsFromBase_Inr:
  "generatePromptsFromBase be n = Inr ps \<Longrightarrow>
     js_truthy (API_KEY be) \<and> breakdown_prompts be n = ps \<and> ps \<noteq> []"
  by (auto simp: generatePromptsFromBase_def getAiClient_def breakdown_prompts_def
           split: sum.splits if_splits breakdown_reply.splits prompts_field.splits)

lemma generateImageSet_Inr:
  "generateImageSet be n model cs = Inr storyboard \<Longrightarrow>
     js_truthy (API_KEY be) \<and> breakdown_prompts be n \<noteq> []
     \<and> storyboard = map (scene_at be (breakdown_prompts be n) model cs)
                        [0..<length (breakdown_prompts be n)]"
proof -
  assume a: "generateImageSet be n model cs = Inr storyboard"
  then obtain ps where ps: "generatePromptsFromBase be n = Inr ps"
    by (auto simp: generateImageSet_def split: sum.splits js_thrown.splits)
  then have k: "js_truthy (API_KEY be)" and b: "breakdown_prompts be n = ps" and ne: "ps \<noteq> []"
    using generatePromptsFromBase_Inr by blast+
  have "fst (generateImagesFromPrompts be ps model cs) = Inr storyboard"
    using a ps by (auto simp: generateImageSet_def split: sum.splits js_thrown.splits)
  then have "storyboard = map (scene_at be ps model cs) [0..<length ps]"
    using generateImagesFromPrompts_closed_form [OF k, of ps model cs] by simp
  with k b ne show ?thesis by simp
qed


lemma prompts_of_scenes:
  "map prompt (map (scene_at be ps model cs) [0..<length ps]) = ps"
  by (simp add: scene_at_def mk_scene_def map_nth comp_def)

text \<open>
  C1, amended. A scene pipeline run that returns gives exactly one scene per prompt of the
  breakdown reply, in prompt order, and there is at least one; the requested count is not
  compared with the reply. The caller then adds a generation with these scenes and one fresh
  idle video state (no clips) per scene.
\<close>

theorem scene_pipeline_count:
  "(generateImageSet be imageCount model cs = Inr storyboard
      \<longrightarrow> breakdown_prompts be imageCount \<noteq> []
          \<and> length storyboard = length (breakdown_prompts be imageCount)
          \<and> map prompt storyboard = breakdown_prompts be imageCount)
   \<and> (promptText \<noteq> [] \<and> generateImageSet be imageCount model cs = Inr storyboard
      \<longrightarrow> snd (handleGenerateImage be now promptText imageCount ar style model gnr cs prev) = AppIdle
          \<and> tl (fst (handleGenerateImage be now promptText imageCount ar style model gnr cs prev)) = prev
          \<and> imageSet (hd (fst (handleGenerateImage be now promptText imageCount ar style model gnr cs prev)))
              = storyboard
          \<and> videoStates (hd (fst (handleGenerateImage be now promptText imageCount ar style model gnr cs prev)))
              = replicate (length storyboard) getInitialVideoState)
   \<and> status getInitialVideoState = Idle \<and> clips getInitialVideoState = []"
proof -
  have a: "generateImageSet be imageCount model cs = Inr storyboard
      \<longrightarrow> breakdown_prompts be imageCount \<noteq> []
          \<and> length storyboard = length (breakdown_prompts be imageCount)
          \<and> map prompt storyboard = breakdown_prompts be imageCount"
  proof
    assume "generateImageSet be imageCount model cs = Inr storyboard"
    then have ne: "breakdown_prompts be imageCount \<noteq> []"
      and sb: "storyboard = map (scene_at be (breakdown_prompts be imageCount) model cs)
                        [0..<length (breakdown_prompts be imageCount)]"
      using generateImageSet_Inr by blast+
    have "map prompt storyboard = breakdown_prompts be imageCount"
      by (simp only: sb prompts_of_scenes)
    moreover have "length storyboard = length (breakdown_prompts be imageCount)"
      by (simp add: sb)
    ultimately show "breakdown_prompts be imageCount \<noteq> []
          \<and> length storyboard = length (breakdown_prompts be imageCount)
          \<and> map prompt storyboard = breakdown_prompts be imageCount"
      using ne by simp
  qed
  have b: "promptText \<noteq> [] \<and> generateImageSet be imageCount model cs = Inr storyboard
      \<longrightarrow> snd (handleGenerateImage be now promptText imageCount ar style model gnr cs prev) = AppIdle
          \<and> tl (fst (handleGenerateImage be now promptText imageCount ar style model gnr cs prev)) = prev
          \<and> imageSet (hd (fst (handleGenerateImage be now promptText imageCount ar style model gnr cs prev)))
              = storyboard
          \<and> videoStates (hd (fst (handleGenerateImage be now promptText imageCount ar style model gnr cs prev)))
              = replicate (length storyboard) getInitialVideoState"
    by (simp add: handleGenerateImage_def)
  show ?thesis using a b by (simp add: getInitialVideoState_def)
qed

lemma short_storyboard:
  "generateImageSet short_backend 5 ''gemini-2.5-flash-image'' []
     = Inr [mk_scene ''a robot'' (Some ''png'') None,
            mk_scene ''a garden'' (Some ''png'') None,
            mk_scene ''a sunset'' (Some ''png'') None]"
  by code_simp

text \<open>
  C1, as stated, fails: asked for 5 scenes, a backend that replies with three prompts
  yields a run that returns 3 scenes.
\<close>

theorem scene_pipeline_count_counterexample:
  "(1::nat) \<le> 5 \<and> (5::nat) \<le> 10
   \<and> generateImageSet short_backend 5 ''gemini-2.5-flash-image'' []
       = Inr [mk_scene ''a robot'' (Some ''png'') None,
              mk_scene ''a garden'' (Some ''png'') None,
              mk_scene ''a sunset'' (Some ''png'') None]
   \<and> length [mk_scene ''a robot'' (Some ''png'') None,
              mk_scene ''a garden'' (Some ''png'') None,
              mk_scene ''a sunset'' (Some ''png'') None] \<noteq> 5"
  using short_storyboard by simp

theorem scene_pipeline_count_witness:
  "''a robot explores a garden'' \<noteq> []
   \<and> generateImageSet short_backend 5 ''gemini-2.5-flash-image'' []
       = Inr [mk_scene ''a robot'' (Some ''png'') None,
              mk_scene ''a garden'' (Some ''png'') None,
              mk_scene ''a sunset'' (Some ''png'') None]
   \<and> map prompt [mk_scene ''a robot'' (Some ''png'') None,
              mk_scene ''a garden'' (Some ''png'') None,
              mk_scene ''a sunset'' (Some ''png'') None] = breakdown_prompts short_backend 5
   \<and> videoStates (hd (fst (handleGenerateImage short_backend 1700000000000 ''a robot explores a garden'' 5
          ''16:9'' ''Illustration'' ''gemini-2.5-flash-image'' ''General'' [] [])))
       = replicate (length [mk_scene ''a robot'' (Some ''png'') None,
              mk_scene ''a garden'' (Some ''png'') None,
              mk_scene ''a sunset'' (Some ''png'') None]) getInitialVideoState"
proof -
  have n: "''a robot explores a garden'' \<noteq> []" by simp
  note g = scene_pipeline_count [where be = short_backend and imageCount = 5
      and model = "''gemini-2.5-flash-image''" and cs = "[]"
      and storyboard = "[mk_scene ''a robot'' (Some ''png'') None,
              mk_scene ''a garden'' (Some ''png'') None,
              mk_scene ''a sunset'' (Some ''png'') None]"
      and promptText = "''a robot explores a garden''" and now = 1700000000000
      and ar = "''16:9''" and style = "''Illustration''" and gnr = "''General''" and prev = "[]"]
  note r1 = mp [OF g [THEN conjunct1] short_storyboard]
  note r2 = mp [OF g [THEN conjunct2, THEN conjunct1] conjI [OF n short_storyboard]]
  show ?thesis
    by (intro conjI n short_storyboard r1 [THEN conjunct2, THEN conjunct2]
          r2 [THEN conjunct2, THEN conjunct2, THEN conjunct2])
qed

section \<open>The scene tree\<close>

subsection \<open>Lists and options\<close>

lemma those_map_Some:
  "(\<And>x. x \<in> set xs \<Longrightarrow> f x = Some (g x)) \<Longrightarrow> those (map f xs) = Some (map g xs)"
  by (induction xs) simp_all

lemma findIndex_Some: "findIndex p xs = Some i \<Longrightarrow> i < length xs \<and> p (xs ! i)"
proof (induction xs arbitrary: i)
  case Nil
  then show ?case by simp
next
  case (Cons x xs)
  then show ?case by (auto split: if_splits option.splits)
qed


lemma length_splice: "length (splice k ys xs) = length xs + length ys"
  by (simp add: splice_def)

subsection \<open>The deletion loop\<close>

lemma kept_Suc:
  "kept removed (Suc k) = (if k \<in> set removed then kept removed k else kept removed k @ [k])"
  by (simp add: kept_def)

lemma delete_loop_upto:
  "foldl (delete_loop_step removed scenes vs)
      \<lparr>newImageSet = [], newVideoStates = [], indexMap = Map.empty, currentNewIndex = 0\<rparr> [0..<k]
     = \<lparr>newImageSet = map (\<lambda>i. scenes ! i) (kept removed k),
        newVideoStates = map (js_nth vs) (kept removed k),
        indexMap = (\<lambda>p. if p < k \<and> p \<notin> set removed then Some (new_pos removed p) else None),
        currentNewIndex = length (kept removed k)\<rparr>"
proof (induction k)
  case 0
  show ?case by (simp add: kept_def)
next
  case (Suc k)
  have m: "(\<lambda>p. if p < k \<and> p \<notin> set removed then Some (new_pos removed p) else None)
             (k \<mapsto> length (kept removed k))
         = (\<lambda>p. if p < Suc k \<and> p \<notin> set removed then Some (new_pos removed p) else None)"
    if "k \<notin> set removed"
    using that by (auto simp: fun_eq_iff new_pos_def less_Suc_eq)
  have n: "(\<lambda>p. if p < k \<and> p \<notin> set removed then Some (new_pos removed p) else None)
         = (\<lambda>p. if p < Suc k \<and> p \<notin> set removed then Some (new_pos removed p) else None)"
    if "k \<in> set removed"
    using that by (auto simp: fun_eq_iff less_Suc_eq)
  show ?case
  proof (cases "k \<in> set removed")
    case True
    then show ?thesis using Suc n by (simp add: delete_loop_step_def kept_Suc)
  next
    case False
    then show ?thesis using Suc m by (simp add: delete_loop_step_def kept_Suc)
  qed
qed

lemma delete_loop_eq:
  "delete_loop removed scenes vs
     = \<lparr>newImageSet = map (\<lambda>i. scenes ! i) (kept removed (length scenes)),
        newVideoStates = map (js_nth vs) (kept removed (length scenes)),
        indexMap = (\<lambda>p. if p < length scenes \<and> p \<notin> set removed
                         then Some (new_pos removed p) else None),
        currentNewIndex = length (kept removed (length scenes))\<rparr>"
  by (simp add: delete_loop_def delete_loop_upto)

lemma kept_bound: "i \<in> set (kept removed n) \<Longrightarrow> i < n"
  by (simp add: kept_def)

lemma delete_from_item_aligned:
  assumes "aligned item"
  shows "delete_from_item removed item
     = Some (item\<lparr>imageSet := map (reindex removed
                     (\<lambda>p. if p < length (imageSet item) \<and> p \<notin> set removed
                          then Some (new_pos removed p) else None))
                   (map (\<lambda>i. imageSet item ! i) (kept removed (length (imageSet item)))),
                  videoStates := map (\<lambda>i. videoStates item ! i) (kept removed (length (imageSet item)))\<rparr>)"
proof -
  have "those (map (js_nth (videoStates item)) (kept removed (length (imageSet item))))
      = Some (map (\<lambda>i. videoStates item ! i) (kept removed (length (imageSet item))))"
    using assms by (intro those_map_Some) (auto simp: js_nth_def aligned_def dest: kept_bound)
  then show ?thesis by (simp add: delete_from_item_def delete_loop_eq Let_def)
qed

lemma delete_from_item_keeps_aligned:
  "aligned item \<Longrightarrow> \<exists>item'. delete_from_item removed item = Some item' \<and> aligned item'"
  by (simp add: delete_from_item_aligned aligned_def)

lemma list_all_remove: "list_all P xs \<Longrightarrow> list_all P (take k xs @ drop (Suc k) xs)"
  by (auto simp: list_all_iff dest: in_set_takeD in_set_dropD)

lemma list_all_take: "list_all P xs \<Longrightarrow> list_all P (take k xs)"
  by (auto simp: list_all_iff dest: in_set_takeD)

lemma list_all_drop: "list_all P xs \<Longrightarrow> list_all P (drop k xs)"
  by (auto simp: list_all_iff dest: in_set_dropD)

lemma list_all_update: "list_all P xs \<Longrightarrow> P y \<Longrightarrow> list_all P (xs[k := y])"
  by (auto simp: list_all_iff dest: set_update_subset_insert [THEN subsetD])

lemma handleDeleteScene_aligned:
  assumes "list_all aligned prev"
  shows "\<exists>h. handleDeleteScene confirm prev gid i = Some h \<and> list_all aligned h"
proof (cases "findIndex (\<lambda>item. gi_id item = gid) prev")
  case None
  then show ?thesis using assms by (simp add: handleDeleteScene_def)
next
  case (Some k)
  then have k: "k < length prev" using findIndex_Some by fastforce
  then have a: "aligned (prev ! k)" using assms by (simp add: list_all_length)
  show ?thesis
  proof (cases "js_nth (imageSet (prev ! k)) i")
    case None
    then show ?thesis using Some assms by (simp add: handleDeleteScene_def)
  next
    case (Some sceneToDelete)
    note sd = this
    show ?thesis
    proof (cases "confirm (confirmMessage (imageSet (prev ! k)) i sceneToDelete)")
      case False
      then show ?thesis using sd \<open>findIndex _ prev = Some k\<close> assms
        by (simp add: handleDeleteScene_def)
    next
      case True
      obtain item' where d: "delete_from_item
          (finalIndicesToRemove (imageSet (prev ! k))
             (initialIndicesToRemove (imageSet (prev ! k)) i sceneToDelete)) (prev ! k) = Some item'"
        and a': "aligned item'"
        using delete_from_item_keeps_aligned [OF a] by blast
      show ?thesis
        using True sd \<open>findIndex _ prev = Some k\<close> d a' assms
        by (simp add: handleDeleteScene_def delete_in_history_def list_all_take list_all_drop list_all_update)
    qed
  qed
qed


subsection \<open>Angle insertion and extension\<close>

lemma set_scene_simps [simp]:
  "length (imageSet (set_scene r f item)) = length (imageSet item)"
  "videoStates (set_scene r f item) = videoStates item"
  "gi_id (set_scene r f item) = gi_id item"
  by (simp_all add: set_scene_def)

lemma set_scene_aligned: "aligned item \<Longrightarrow> aligned (set_scene r f item)"
  by (simp add: aligned_def)

lemma those_nodes: "those (map the_scene (map Node xs)) = Some xs"
  by (induction xs) simp_all

lemma those_torn: "those (map the_scene (map Node xs @ replicate k Hole @ [Stub])) = None"
proof (induction xs)
  case Nil
  show ?case by (induction k) simp_all
next
  case (Cons x xs)
  then show ?case by simp
qed

lemma angle_update_lengths:
  "length (fst (angle_update r ns item)) = max (length (imageSet item) + length ns) (r + 1)"
  "length (snd (angle_update r ns item)) = length (videoStates item) + length ns"
  by (auto simp: angle_update_def Let_def length_splice)

lemma insert_angles_unfold:
  "insert_angles sceneIndex newScenes item =
     (let updatedImageSet = map (bump_parent sceneIndex (length newScenes)) (imageSet item);
          updatedImageSet = splice (sceneIndex + 1)
             (map (\<lambda>s. s\<lparr>isCameraAngleFor := Some sceneIndex\<rparr>) newScenes) updatedImageSet;
          states = splice (sceneIndex + 1)
             (map (\<lambda>u. getInitialVideoState) (replicate (length newScenes) ()))
             (videoStates item)
      in if sceneIndex < length updatedImageSet
         then Some (item\<lparr>imageSet := updatedImageSet[sceneIndex :=
                       (updatedImageSet ! sceneIndex)\<lparr>isGeneratingAngles := Some False, error := None\<rparr>],
                     videoStates := states\<rparr>)
         else None)"
  by (simp add: insert_angles_def angle_update_def Let_def those_nodes those_torn
           del: map_map map_append map_replicate)


lemma insert_angles_aligned:
  "aligned item \<Longrightarrow> insert_angles r newScenes item = Some item' \<Longrightarrow> aligned item'"
  by (auto simp: insert_angles_unfold Let_def length_splice aligned_def split: if_splits)

lemma extend_item_aligned: "aligned item \<Longrightarrow> aligned (extend_item r s item)"
  by (simp add: extend_item_def Let_def aligned_def length_splice)

lemma handleExtendFromLastFrame_aligned:
  "list_all aligned hist \<Longrightarrow> list_all aligned (handleExtendFromLastFrame frame hist gid i)"
  by (auto simp: handleExtendFromLastFrame_def list_all_iff extend_item_aligned
           split: option.splits sum.splits)

lemma handleGenerateImage_aligned:
  "list_all aligned prev \<Longrightarrow>
     list_all aligned (fst (handleGenerateImage be now promptText n ar style model gnr cs prev))"
  by (simp add: handleGenerateImage_def aligned_def split: sum.splits)


text \<open>
  Creation, scene deletion and extend-from-last-frame insertion leave every generation of
  the history with as many video states as scenes. The update that inserts camera angles
  splices both sequences alike, and leaves them equally long exactly when \<open>sceneIndex\<close> is
  below the length of the Scene sequence with the new scenes in it: from there on the
  final assignment extends the Scene sequence alone.
\<close>

lemma other_handlers_keep_aligned:
  assumes "list_all aligned prev"
  shows "list_all aligned (fst (handleGenerateImage be now promptText n ar style model gnr cs prev))"
    and "\<exists>h. handleDeleteScene confirm prev gid i = Some h \<and> list_all aligned h"
    and "list_all aligned (handleExtendFromLastFrame frame prev gid i)"
  using assms
  by (simp_all add: handleGenerateImage_aligned handleDeleteScene_aligned handleExtendFromLastFrame_aligned)

lemma angle_update_aligned_iff:
  assumes "aligned item"
  shows "length (snd (angle_update r ns item)) = length (fst (angle_update r ns item))
     \<longleftrightarrow> r < length (imageSet item) + length ns"
  using assms by (auto simp: angle_update_lengths aligned_def)

text \<open>
  C4 fails for camera-angle insertion when a scene is deleted while the angles are being
  generated. The generation has a root with one camera angle and a second root, at index
  2, for which the angle ``back'' is requested. While the pipeline is awaited the user
  deletes the first root, which goes with its angle: the generation now holds one scene and
  one video state. The update after the wait still uses index 2: both splices land at the
  end, and the assignment to index 2 then extends the Scene sequence, which has three
  entries against two video states. Without the deletion the same request leaves four
  scenes and four video states.
\<close>

theorem stale_angle_write_breaks_alignment:
  "aligned late_root_item
   \<and> map isCameraAngleFor (imageSet late_root_item) = [None, Some 0, None]
   \<and> generateCameraAnglesFromImage studio_backend (imageSet late_root_item ! 2) [''back'']
       = Inr [mk_scene ''Render the scene from behind.'' (Some ''angle'') None]
   \<and> map (\<lambda>item. length (imageSet item)) (delete_first (angles_started 1 2 [late_root_item])) = [1]
   \<and> map (\<lambda>item. length (videoStates item)) (delete_first (angles_started 1 2 [late_root_item])) = [1]
   \<and> fst (angle_update 2 [mk_scene ''Render the scene from behind.'' (Some ''angle'') None]
             (hd (delete_first (angles_started 1 2 [late_root_item]))))
       = [Node ((root_scene ''2'')\<lparr>isGeneratingAngles := Some True\<rparr>),
          Node ((mk_scene ''Render the scene from behind.'' (Some ''angle'') None)
                 \<lparr>isCameraAngleFor := Some 2\<rparr>),
          Stub]
   \<and> length (fst (angle_update 2 [mk_scene ''Render the scene from behind.'' (Some ''angle'') None]
                     (hd (delete_first (angles_started 1 2 [late_root_item]))))) = 3
   \<and> length (snd (angle_update 2 [mk_scene ''Render the scene from behind.'' (Some ''angle'') None]
                     (hd (delete_first (angles_started 1 2 [late_root_item]))))) = 2
   \<and> handleConfirmAngleGeneration studio_backend [late_root_item] delete_first False 1 2 [''back'']
       = None
   \<and> map (\<lambda>item. length (imageSet item))
         (the (handleConfirmAngleGeneration studio_backend [late_root_item] (\<lambda>h. h) False 1 2 [''back'']))
       = [4]
   \<and> map (\<lambda>item. length (videoStates item))
         (the (handleConfirmAngleGeneration studio_backend [late_root_item] (\<lambda>h. h) False 1 2 [''back'']))
       = [4]"
  by code_simp

subsection \<open>Camera-angle insertion\<close>




lemma splice_nth_before: "i \<le> r \<Longrightarrow> r < length xs \<Longrightarrow> splice (r + 1) ys xs ! i = xs ! i"
  by (simp add: splice_def nth_append)

lemma splice_nth_new: "j < length ys \<Longrightarrow> r < length xs \<Longrightarrow> splice (r + 1) ys xs ! (r + 1 + j) = ys ! j"
  by (simp add: splice_def nth_append)

lemma splice_nth_after:
  "r < i \<Longrightarrow> i < length xs \<Longrightarrow> splice (r + 1) ys xs ! (i + length ys) = xs ! i"
proof -
  assume a: "r < i" "i < length xs"
  then have b: "i + length ys - Suc r - length ys = i - Suc r"
    and c: "\<not> i + length ys - Suc r < length ys" and d: "\<not> i + length ys < Suc r"
    by arith+
  with a show ?thesis
    by (simp add: splice_def nth_append min_def)
qed


lemma bump_parent_eq:
  "bump_parent r m s
     = s\<lparr>isCameraAngleFor := map_option (\<lambda>p. if p > r then p + m else p) (isCameraAngleFor s)\<rparr>"
  by (cases "isCameraAngleFor s") (simp_all add: bump_parent_def)

lemma insert_angles_nth:
  assumes r: "r < length (imageSet item)"
  shows "\<exists>item'. insert_angles r ns item = Some item'
     \<and> length (imageSet item') = length (imageSet item) + length ns
     \<and> length (videoStates item') = length (videoStates item) + length ns
     \<and> (\<forall>j<length ns. imageSet item' ! (r + 1 + j) = (ns ! j)\<lparr>isCameraAngleFor := Some r\<rparr>)
     \<and> (\<forall>i<length (imageSet item). i \<noteq> r \<longrightarrow>
           imageSet item' ! (if i < r then i else i + length ns)
             = bump_parent r (length ns) (imageSet item ! i))
     \<and> imageSet item' ! r
         = (bump_parent r (length ns) (imageSet item ! r))\<lparr>isGeneratingAngles := Some False, error := None\<rparr>"
proof -
  let ?S = "map (bump_parent r (length ns)) (imageSet item)"
  let ?T = "map (\<lambda>s. s\<lparr>isCameraAngleFor := Some r\<rparr>) ns"
  let ?U = "splice (r + 1) ?T ?S"
  let ?item' = "item\<lparr>imageSet := ?U[r := (?U ! r)\<lparr>isGeneratingAngles := Some False, error := None\<rparr>],
                     videoStates := splice (r + 1)
                        (map (\<lambda>u. getInitialVideoState) (replicate (length ns) ())) (videoStates item)\<rparr>"
  have rS: "r < length ?S" using r by simp
  have lU: "length ?U = length (imageSet item) + length ns" by (simp add: length_splice)
  have ins: "insert_angles r ns item = Some ?item'"
    using r by (simp add: insert_angles_unfold Let_def length_splice)
  have new: "imageSet ?item' ! (r + 1 + j) = (ns ! j)\<lparr>isCameraAngleFor := Some r\<rparr>" if "j < length ns" for j
    using that splice_nth_new [of j ?T r ?S] rS by simp
  have before: "imageSet ?item' ! i = bump_parent r (length ns) (imageSet item ! i)" if "i < r" for i
    using that splice_nth_before [of i r ?S ?T] rS r by simp
  have after: "imageSet ?item' ! (i + length ns) = bump_parent r (length ns) (imageSet item ! i)"
    if "r < i" "i < length (imageSet item)" for i
    using that splice_nth_after [of r i ?S ?T] by simp
  have at: "imageSet ?item' ! r
      = (bump_parent r (length ns) (imageSet item ! r))\<lparr>isGeneratingAngles := Some False, error := None\<rparr>"
    using splice_nth_before [of r r ?S ?T] rS r lU by simp
  have old: "imageSet ?item' ! (if i < r then i else i + length ns)
             = bump_parent r (length ns) (imageSet item ! i)"
    if "i < length (imageSet item)" "i \<noteq> r" for i
    using that before [of i] after [of i] by (cases "i < r") simp_all
  show ?thesis
    using ins new old at lU by (intro exI [of _ ?item']) (simp add: length_splice)
qed












subsection \<open>Deletion\<close>

lemma kept_nth:
  "i < n \<Longrightarrow> i \<notin> set removed \<Longrightarrow>
     new_pos removed i < length (kept removed n) \<and> kept removed n ! new_pos removed i = i"
proof (induction n)
  case 0
  then show ?case by simp
next
  case (Suc n)
  show ?case
  proof (cases "i = n")
    case True
    with Suc.prems show ?thesis by (simp add: kept_Suc new_pos_def)
  next
    case False
    with Suc.prems have "i < n" by simp
    from Suc.IH [OF this Suc.prems(2)] show ?thesis
      by (simp add: kept_Suc nth_append)
  qed
qed

lemma length_kept:
  "set removed \<inter> {..<n} = R \<Longrightarrow> length (kept removed n) = n - card R"
proof -
  assume a: "set removed \<inter> {..<n} = R"
  have "length (kept removed n) = card ({i. i \<notin> set removed} \<inter> set [0..<n])"
    unfolding kept_def by (rule distinct_length_filter) simp
  also have "{i. i \<notin> set removed} \<inter> set [0..<n] = {..<n} - R" using a by auto
  also have "card ({..<n} - R) = card {..<n} - card R"
    using a by (intro card_Diff_subset) auto
  finally show ?thesis by simp
qed

lemma length_children_of:
  "length (children_of scenes k) = length (filter (\<lambda>s. isCameraAngleFor s = Some k) scenes)"
proof -
  have "filter (\<lambda>s. isCameraAngleFor s = Some k) (map (\<lambda>i. scenes ! i) [0..<length scenes])
      = map (\<lambda>i. scenes ! i) (children_of scenes k)"
    by (simp add: children_of_def filter_map comp_def)
  then have "length (filter (\<lambda>s. isCameraAngleFor s = Some k) (map (\<lambda>i. scenes ! i) [0..<length scenes]))
      = length (children_of scenes k)"
    by simp
  then show ?thesis by (simp add: map_nth)
qed

lemma set_children_of:
  "set (children_of scenes k) = {c. c < length scenes \<and> isCameraAngleFor (scenes ! c) = Some k}"
  by (auto simp: children_of_def)

lemma distinct_children_of: "distinct (children_of scenes k)"
  by (simp add: children_of_def)

lemma removed_by_root:
  assumes "r < length scenes" "isCameraAngleFor (scenes ! r) = None"
  shows "removed_by scenes r = r # children_of scenes r"
  using assms
  by (simp add: removed_by_def initialIndicesToRemove_def finalIndicesToRemove_def js_nth_def)

lemma removed_by_sole_child:
  assumes "r < length scenes" "isCameraAngleFor (scenes ! r) = Some p"
    "p < length scenes" "isCameraAngleFor (scenes ! p) = None"
    "length (filter (\<lambda>s. isCameraAngleFor s = Some p) scenes) = 1"
  shows "removed_by scenes r = [r, p] @ children_of scenes p"
  using assms
  by (simp add: removed_by_def initialIndicesToRemove_def finalIndicesToRemove_def js_nth_def)

lemma reindex_eq:
  "reindex removed (\<lambda>p. if p < n \<and> p \<notin> set removed then Some (new_pos removed p) else None) s
     = s\<lparr>isCameraAngleFor :=
           (case isCameraAngleFor s of
              None \<Rightarrow> None
            | Some q \<Rightarrow> if q \<in> set removed then None
                        else if q < n then Some (new_pos removed q) else Some q)\<rparr>"
  by (cases "isCameraAngleFor s") (simp_all add: reindex_def)

lemma removed_by_sibling:
  assumes "r < length scenes" "isCameraAngleFor (scenes ! r) = Some p"
    "length (filter (\<lambda>s. isCameraAngleFor s = Some p) scenes) \<noteq> 1"
  shows "removed_by scenes r = [r]"
  using assms
  by (simp add: removed_by_def initialIndicesToRemove_def finalIndicesToRemove_def js_nth_def)

lemma handleDeleteScene_found:
  assumes fi: "findIndex (\<lambda>it. gi_id it = gid) prev = Some k" and item: "prev ! k = item"
    and r: "r < length (imageSet item)"
    and yes: "confirm (confirmMessage (imageSet item) r (imageSet item ! r))"
  shows "handleDeleteScene confirm prev gid r
     = delete_in_history prev k (delete_from_item (removed_by (imageSet item) r) item)"
  using fi item r yes by (simp add: handleDeleteScene_def js_nth_def removed_by_def Let_def)

lemma delete_positions:
  assumes al: "aligned item"
    and d: "delete_from_item removed item = Some item'"
    and i: "i < length (imageSet item)" "i \<notin> set removed"
  shows "new_pos removed i < length (imageSet item')
     \<and> imageSet item' ! new_pos removed i
         = (imageSet item ! i)\<lparr>isCameraAngleFor :=
              (case isCameraAngleFor (imageSet item ! i) of
                 None \<Rightarrow> None
               | Some q \<Rightarrow> if q \<in> set removed then None
                           else if q < length (imageSet item) then Some (new_pos removed q)
                           else Some q)\<rparr>
     \<and> videoStates item' ! new_pos removed i = videoStates item ! i"
proof -
  note k = kept_nth [OF i]
  from d have im: "imageSet item' = map (reindex removed
                     (\<lambda>p. if p < length (imageSet item) \<and> p \<notin> set removed
                          then Some (new_pos removed p) else None))
                   (map (\<lambda>i. imageSet item ! i) (kept removed (length (imageSet item))))"
    and vs: "videoStates item' = map (\<lambda>i. videoStates item ! i) (kept removed (length (imageSet item)))"
    by (auto simp: delete_from_item_aligned [OF al])
  show ?thesis using k by (simp add: im vs reindex_eq)
qed

lemma delete_lengths:
  assumes al: "aligned item" and d: "delete_from_item removed item = Some item'"
  shows "length (imageSet item') = length (kept removed (length (imageSet item)))
     \<and> length (videoStates item') = length (imageSet item')
     \<and> map (\<lambda>s. s\<lparr>isCameraAngleFor := None\<rparr>) (imageSet item')
         = map (\<lambda>i. (imageSet item ! i)\<lparr>isCameraAngleFor := None\<rparr>)
             (kept removed (length (imageSet item)))"
proof -
  from d have im: "imageSet item' = map (reindex removed
                     (\<lambda>p. if p < length (imageSet item) \<and> p \<notin> set removed
                          then Some (new_pos removed p) else None))
                   (map (\<lambda>i. imageSet item ! i) (kept removed (length (imageSet item))))"
    and vs: "videoStates item' = map (\<lambda>i. videoStates item ! i) (kept removed (length (imageSet item)))"
    by (auto simp: delete_from_item_aligned [OF al])
  show ?thesis by (simp add: im vs reindex_eq comp_def)
qed

lemma root_closure:
  assumes r: "r < length scenes" and root: "isCameraAngleFor (scenes ! r) = None"
  shows "set (removed_by scenes r)
       = insert r {c. c < length scenes \<and> isCameraAngleFor (scenes ! c) = Some r}
     \<and> length (kept (removed_by scenes r) (length scenes))
       = length scenes - (length (filter (\<lambda>s. isCameraAngleFor s = Some r) scenes) + 1)"
proof -
  have R: "removed_by scenes r = r # children_of scenes r" by (rule removed_by_root [OF r root])
  have notin: "r \<notin> set (children_of scenes r)" using root by (simp add: set_children_of)
  have sub: "set (removed_by scenes r) \<inter> {..<length scenes} = set (removed_by scenes r)"
    using r by (auto simp: R set_children_of)
  have "card (set (removed_by scenes r)) = length (removed_by scenes r)"
    unfolding R using notin distinct_children_of [of scenes r] by (intro distinct_card) simp
  then have "length (kept (removed_by scenes r) (length scenes))
      = length scenes - length (removed_by scenes r)"
    using length_kept [OF sub] by simp
  then show ?thesis by (simp add: R set_children_of length_children_of)
qed

lemma sole_child_closure:
  assumes r: "r < length scenes" and par: "isCameraAngleFor (scenes ! r) = Some p"
    and p: "p < length scenes" and root: "isCameraAngleFor (scenes ! p) = None"
    and one: "length (filter (\<lambda>s. isCameraAngleFor s = Some p) scenes) = 1"
  shows "set (removed_by scenes r) = {r, p}
     \<and> length (kept (removed_by scenes r) (length scenes)) = length scenes - 2"
proof -
  have R: "removed_by scenes r = [r, p] @ children_of scenes p"
    by (rule removed_by_sole_child [OF r par p root one])
  have mem: "r \<in> set (children_of scenes p)" using r par by (simp add: set_children_of)
  have "length (children_of scenes p) = 1" using one by (simp add: length_children_of)
  then obtain c where "children_of scenes p = [c]"
    by (cases "children_of scenes p") simp_all
  with mem have ch: "children_of scenes p = [r]" by simp
  have ne: "r \<noteq> p" using par root by auto
  have S: "set (removed_by scenes r) = {r, p}" by (auto simp: R ch)
  have sub: "set (removed_by scenes r) \<inter> {..<length scenes} = {r, p}" using r p by (auto simp: S)
  have "card {r, p} = 2" using ne by simp
  with length_kept [OF sub] S show ?thesis by simp
qed

lemma sibling_closure:
  assumes r: "r < length scenes" and par: "isCameraAngleFor (scenes ! r) = Some p"
    and many: "length (filter (\<lambda>s. isCameraAngleFor s = Some p) scenes) \<noteq> 1"
  shows "set (removed_by scenes r) = {r}
     \<and> length (kept (removed_by scenes r) (length scenes)) = length scenes - 1"
proof -
  have R: "removed_by scenes r = [r]" by (rule removed_by_sibling [OF r par many])
  have sub: "set (removed_by scenes r) \<inter> {..<length scenes} = {r}" using r by (auto simp: R)
  from length_kept [OF sub] show ?thesis by (simp add: R)
qed

text \<open>
  C2. Deleting the scene at index \<open>r\<close> of the first generation with the given id, once
  confirmed, replaces that generation in the history (or drops it when no scene is left)
  and leaves the other generations as they are. It removes exactly the indices of the
  cascade and keeps every other scene in order, with its video state: a root goes with its
  \<open>k\<close> camera angles, \<open>k + 1\<close> scenes in all; the only camera angle of a root goes with
  that root, 2 scenes in all; a camera angle that has siblings goes alone. A kept scene that
  was at index \<open>i\<close> is afterwards at the number of kept indices below \<open>i\<close>, and its
  parent reference names the new position of its parent.
\<close>

theorem delete_cascades_and_remaps:
  assumes fi: "findIndex (\<lambda>it. gi_id it = gid) prev = Some k" and item: "prev ! k = item"
    and al: "aligned item" and r: "r < length (imageSet item)"
    and yes: "confirm (confirmMessage (imageSet item) r (imageSet item ! r))"
  shows "\<exists>item'. handleDeleteScene confirm prev gid r
                  = Some (if imageSet item' = [] then take k prev @ drop (Suc k) prev
                          else prev[k := item'])
     \<and> item' = item\<lparr>imageSet := imageSet item', videoStates := videoStates item'\<rparr>
     \<and> length (imageSet item') = length (kept (removed_by (imageSet item) r) (length (imageSet item)))
     \<and> length (videoStates item') = length (imageSet item')
     \<and> map (\<lambda>s. s\<lparr>isCameraAngleFor := None\<rparr>) (imageSet item')
         = map (\<lambda>i. (imageSet item ! i)\<lparr>isCameraAngleFor := None\<rparr>)
             (kept (removed_by (imageSet item) r) (length (imageSet item)))
     \<and> (\<forall>i<length (imageSet item). i \<notin> set (removed_by (imageSet item) r) \<longrightarrow>
           new_pos (removed_by (imageSet item) r) i < length (imageSet item')
           \<and> imageSet item' ! new_pos (removed_by (imageSet item) r) i
               = (imageSet item ! i)\<lparr>isCameraAngleFor :=
                    (case isCameraAngleFor (imageSet item ! i) of
                       None \<Rightarrow> None
                     | Some q \<Rightarrow> if q \<in> set (removed_by (imageSet item) r) then None
                                 else if q < length (imageSet item)
                                      then Some (new_pos (removed_by (imageSet item) r) q)
                                      else Some q)\<rparr>
           \<and> videoStates item' ! new_pos (removed_by (imageSet item) r) i = videoStates item ! i)
     \<and> (isCameraAngleFor (imageSet item ! r) = None \<longrightarrow>
           set (removed_by (imageSet item) r)
             = insert r {c. c < length (imageSet item) \<and> isCameraAngleFor (imageSet item ! c) = Some r}
           \<and> length (imageSet item')
             = length (imageSet item)
                 - (length (filter (\<lambda>s. isCameraAngleFor s = Some r) (imageSet item)) + 1))
     \<and> (\<forall>p. isCameraAngleFor (imageSet item ! r) = Some p \<and> p < length (imageSet item)
             \<and> isCameraAngleFor (imageSet item ! p) = None
             \<and> length (filter (\<lambda>s. isCameraAngleFor s = Some p) (imageSet item)) = 1 \<longrightarrow>
           set (removed_by (imageSet item) r) = {r, p}
           \<and> length (imageSet item') = length (imageSet item) - 2)
     \<and> (\<forall>p. isCameraAngleFor (imageSet item ! r) = Some p
             \<and> length (filter (\<lambda>s. isCameraAngleFor s = Some p) (imageSet item)) \<noteq> 1 \<longrightarrow>
           set (removed_by (imageSet item) r) = {r}
           \<and> length (imageSet item') = length (imageSet item) - 1)"
proof -
  from delete_from_item_keeps_aligned [OF al, of "removed_by (imageSet item) r"]
  obtain item' where d: "delete_from_item (removed_by (imageSet item) r) item = Some item'" by blast
  have h: "handleDeleteScene confirm prev gid r
                  = Some (if imageSet item' = [] then take k prev @ drop (Suc k) prev
                          else prev[k := item'])"
    by (simp add: handleDeleteScene_found [where confirm = confirm, OF fi item r yes] d
          delete_in_history_def)
  have same: "item' = item\<lparr>imageSet := imageSet item', videoStates := videoStates item'\<rparr>"
    using d by (auto simp: delete_from_item_aligned [OF al])
  note l = delete_lengths [OF al d]
  have pos: "\<forall>i<length (imageSet item). i \<notin> set (removed_by (imageSet item) r) \<longrightarrow>
           new_pos (removed_by (imageSet item) r) i < length (imageSet item')
           \<and> imageSet item' ! new_pos (removed_by (imageSet item) r) i
               = (imageSet item ! i)\<lparr>isCameraAngleFor :=
                    (case isCameraAngleFor (imageSet item ! i) of
                       None \<Rightarrow> None
                     | Some q \<Rightarrow> if q \<in> set (removed_by (imageSet item) r) then None
                                 else if q < length (imageSet item)
                                      then Some (new_pos (removed_by (imageSet item) r) q)
                                      else Some q)\<rparr>
           \<and> videoStates item' ! new_pos (removed_by (imageSet item) r) i = videoStates item ! i"
    using delete_positions [OF al d] by blast
  have root: "isCameraAngleFor (imageSet item ! r) = None \<longrightarrow>
           set (removed_by (imageSet item) r)
             = insert r {c. c < length (imageSet item) \<and> isCameraAngleFor (imageSet item ! c) = Some r}
           \<and> length (imageSet item')
             = length (imageSet item)
                 - (length (filter (\<lambda>s. isCameraAngleFor s = Some r) (imageSet item)) + 1)"
    using root_closure [OF r] l by simp
  have sole: "\<forall>p. isCameraAngleFor (imageSet item ! r) = Some p \<and> p < length (imageSet item)
             \<and> isCameraAngleFor (imageSet item ! p) = None
             \<and> length (filter (\<lambda>s. isCameraAngleFor s = Some p) (imageSet item)) = 1 \<longrightarrow>
           set (removed_by (imageSet item) r) = {r, p}
           \<and> length (imageSet item') = length (imageSet item) - 2"
    using sole_child_closure [OF r] l by simp
  have sib: "\<forall>p. isCameraAngleFor (imageSet item ! r) = Some p
             \<and> length (filter (\<lambda>s. isCameraAngleFor s = Some p) (imageSet item)) \<noteq> 1 \<longrightarrow>
           set (removed_by (imageSet item) r) = {r}
           \<and> length (imageSet item') = length (imageSet item) - 1"
    using sibling_closure [OF r] l by simp
  show ?thesis
    by (rule exI [of _ item']) (intro conjI h same l [THEN conjunct1] l [THEN conjunct2, THEN conjunct1]
        l [THEN conjunct2, THEN conjunct2] pos root sole sib)
qed

lemma eleven_facts:
  "aligned eleven_item"
  "length (imageSet eleven_item) = 11"
  "removed_by (imageSet eleven_item) 5 = [5, 6, 7]"
  "new_pos [5, 6, 7] 9 = 6"
  "new_pos [5, 6, 7] 10 = 7"
  "isCameraAngleFor (imageSet eleven_item ! 5) = None"
  "isCameraAngleFor (imageSet eleven_item ! 9) = None"
  "isCameraAngleFor (imageSet eleven_item ! 10) = Some 9"
  "prompt (imageSet eleven_item ! 9) = ''9''"
  "length (filter (\<lambda>s. isCameraAngleFor s = Some 5) (imageSet eleven_item)) = 2"
  "isCameraAngleFor (imageSet eleven_item ! 6) = Some 5"
  by code_simp+

lemma trio_facts:
  "length (imageSet trio_item) = 3"
  "isCameraAngleFor (imageSet trio_item ! 2) = Some 1"
  "isCameraAngleFor (imageSet trio_item ! 1) = None"
  "length (filter (\<lambda>s. isCameraAngleFor s = Some 1) (imageSet trio_item)) = 1"
  by code_simp+

lemma eleven_found:
  "findIndex (\<lambda>it. gi_id it = 1) [solo_item, eleven_item] = Some 1"
  "[solo_item, eleven_item] ! 1 = eleven_item"
  "findIndex (\<lambda>it. gi_id it = 1) [trio_item] = Some 0"
  "[trio_item] ! 0 = trio_item"
  by (simp_all add: solo_item_def eleven_item_def trio_item_def item_of_def)

theorem delete_cascades_and_remaps_witness:
  "findIndex (\<lambda>it. gi_id it = 1) [solo_item, eleven_item] = Some 1
   \<and> [solo_item, eleven_item] ! 1 = eleven_item
   \<and> aligned eleven_item \<and> 5 < length (imageSet eleven_item)
   \<and> yes (confirmMessage (imageSet eleven_item) 5 (imageSet eleven_item ! 5))
   \<and> (\<exists>item'. handleDeleteScene yes [solo_item, eleven_item] 1 5 = Some [solo_item, item']
         \<and> length (imageSet item') = 8
         \<and> prompt (imageSet item' ! 6) = ''9''
         \<and> isCameraAngleFor (imageSet item' ! 6) = None
         \<and> isCameraAngleFor (imageSet item' ! 7) = Some 6)
   \<and> 6 < length (imageSet eleven_item)
   \<and> (\<exists>item'. handleDeleteScene yes [solo_item, eleven_item] 1 6 = Some [solo_item, item']
         \<and> set (removed_by (imageSet eleven_item) 6) = {6}
         \<and> length (imageSet item') = 10)
   \<and> findIndex (\<lambda>it. gi_id it = 1) [trio_item] = Some 0
   \<and> aligned trio_item \<and> 2 < length (imageSet trio_item)
   \<and> (\<exists>item'. handleDeleteScene yes [trio_item] 1 2 = Some [item']
         \<and> set (removed_by (imageSet trio_item) 2) = {2, 1}
         \<and> length (imageSet item') = 1)"
proof -
  have h2: "5 < length (imageSet eleven_item)" by (simp add: eleven_facts)
  have h3: "yes (confirmMessage (imageSet eleven_item) r (imageSet eleven_item ! r))" for r
    by (simp add: yes_def)
  from delete_cascades_and_remaps [where confirm = yes and item = eleven_item and r = 5,
      OF eleven_found(1) eleven_found(2) eleven_facts(1) h2 h3]
  obtain item' where
    h: "handleDeleteScene yes [solo_item, eleven_item] 1 5
                  = Some (if imageSet item' = [] then take 1 [solo_item, eleven_item]
                            @ drop (Suc 1) [solo_item, eleven_item]
                          else [solo_item, eleven_item][1 := item'])"
    and pos: "\<forall>i<length (imageSet eleven_item). i \<notin> set (removed_by (imageSet eleven_item) 5) \<longrightarrow>
           new_pos (removed_by (imageSet eleven_item) 5) i < length (imageSet item')
           \<and> imageSet item' ! new_pos (removed_by (imageSet eleven_item) 5) i
               = (imageSet eleven_item ! i)\<lparr>isCameraAngleFor :=
                    (case isCameraAngleFor (imageSet eleven_item ! i) of
                       None \<Rightarrow> None
                     | Some q \<Rightarrow> if q \<in> set (removed_by (imageSet eleven_item) 5) then None
                                 else if q < length (imageSet eleven_item)
                                      then Some (new_pos (removed_by (imageSet eleven_item) 5) q)
                                      else Some q)\<rparr>
           \<and> videoStates item' ! new_pos (removed_by (imageSet eleven_item) 5) i
               = videoStates eleven_item ! i"
    and root: "isCameraAngleFor (imageSet eleven_item ! 5) = None \<longrightarrow>
           set (removed_by (imageSet eleven_item) 5)
             = insert 5 {c. c < length (imageSet eleven_item)
                            \<and> isCameraAngleFor (imageSet eleven_item ! c) = Some 5}
           \<and> length (imageSet item')
             = length (imageSet eleven_item)
                 - (length (filter (\<lambda>s. isCameraAngleFor s = Some 5) (imageSet eleven_item)) + 1)"
    by (elim exE conjE) (rule that, assumption+)
  have a: "length (imageSet item') = 8" using root by (simp add: eleven_facts)
  have b: "imageSet item' ! 6 = (imageSet eleven_item ! 9)\<lparr>isCameraAngleFor := None\<rparr>"
    using pos [rule_format, of 9] by (simp add: eleven_facts)
  have c: "isCameraAngleFor (imageSet item' ! 7) = Some 6"
    using pos [rule_format, of 10] by (simp add: eleven_facts)
  have ne: "imageSet item' \<noteq> []" using a by auto
  have h': "handleDeleteScene yes [solo_item, eleven_item] 1 5 = Some [solo_item, item']"
    using h ne by simp
  have e1: "\<exists>item'. handleDeleteScene yes [solo_item, eleven_item] 1 5 = Some [solo_item, item']
         \<and> length (imageSet item') = 8
         \<and> prompt (imageSet item' ! 6) = ''9''
         \<and> isCameraAngleFor (imageSet item' ! 6) = None
         \<and> isCameraAngleFor (imageSet item' ! 7) = Some 6"
    using h' a b c by (intro exI [of _ item']) (simp add: eleven_facts)
  have s2: "6 < length (imageSet eleven_item)" by (simp add: eleven_facts)
  from delete_cascades_and_remaps [where confirm = yes and item = eleven_item and r = 6,
      OF eleven_found(1) eleven_found(2) eleven_facts(1) s2 h3]
  obtain item6 where
    g: "handleDeleteScene yes [solo_item, eleven_item] 1 6
                  = Some (if imageSet item6 = [] then take 1 [solo_item, eleven_item]
                            @ drop (Suc 1) [solo_item, eleven_item]
                          else [solo_item, eleven_item][1 := item6])"
    and sib: "\<forall>p. isCameraAngleFor (imageSet eleven_item ! 6) = Some p
             \<and> length (filter (\<lambda>s. isCameraAngleFor s = Some p) (imageSet eleven_item)) \<noteq> 1 \<longrightarrow>
           set (removed_by (imageSet eleven_item) 6) = {6}
           \<and> length (imageSet item6) = length (imageSet eleven_item) - 1"
    by (elim exE conjE) (rule that, assumption+)
  have s: "set (removed_by (imageSet eleven_item) 6) = {6} \<and> length (imageSet item6) = 10"
    using sib [rule_format, of 5] eleven_facts by simp
  then have ne6: "imageSet item6 \<noteq> []" by auto
  have e3: "\<exists>item'. handleDeleteScene yes [solo_item, eleven_item] 1 6 = Some [solo_item, item']
         \<and> set (removed_by (imageSet eleven_item) 6) = {6}
         \<and> length (imageSet item') = 10"
    using g s ne6 by (intro exI [of _ item6]) simp
  have t1: "aligned trio_item" by code_simp
  have t2: "2 < length (imageSet trio_item)" by (simp add: trio_facts)
  have t3: "yes (confirmMessage (imageSet trio_item) 2 (imageSet trio_item ! 2))"
    by (simp add: yes_def)
  from delete_cascades_and_remaps [where confirm = yes and item = trio_item and r = 2,
      OF eleven_found(3) eleven_found(4) t1 t2 t3]
  obtain item2 where
    h2': "handleDeleteScene yes [trio_item] 1 2
                  = Some (if imageSet item2 = [] then take 0 [trio_item] @ drop (Suc 0) [trio_item]
                          else [trio_item][0 := item2])"
    and sole: "\<forall>p. isCameraAngleFor (imageSet trio_item ! 2) = Some p \<and> p < length (imageSet trio_item)
             \<and> isCameraAngleFor (imageSet trio_item ! p) = None
             \<and> length (filter (\<lambda>s. isCameraAngleFor s = Some p) (imageSet trio_item)) = 1 \<longrightarrow>
           set (removed_by (imageSet trio_item) 2) = {2, p}
           \<and> length (imageSet item2) = length (imageSet trio_item) - 2"
    by (elim exE conjE) (rule that, assumption+)
  have s': "set (removed_by (imageSet trio_item) 2) = {2, 1} \<and> length (imageSet item2) = 1"
    using sole [rule_format, of 1] trio_facts by simp
  then have ne2: "imageSet item2 \<noteq> []" by auto
  have e2: "\<exists>item'. handleDeleteScene yes [trio_item] 1 2 = Some [item']
         \<and> set (removed_by (imageSet trio_item) 2) = {2, 1}
         \<and> length (imageSet item') = 1"
    using h2' s' ne2 by (intro exI [of _ item2]) simp
  show ?thesis
    by (intro conjI eleven_found(1) eleven_found(2) eleven_facts(1) h2 h3 e1 s2 e3
          eleven_found(3) t1 t2 e2)
qed

text \<open>
  C5 fails for extend-from-last-frame. On two roots, the second with a camera angle,
  extending the first root puts the new scene between them and leaves the references of
  the later scenes as they were: the camera angle of the second root now refers to the new
  scene, which is itself a child. The camera-angle insertion on the same root raises that
  reference and keeps the tree shape.
\<close>

theorem extend_breaks_tree_shape:
  "tree_ok (imageSet trio_item)
   \<and> map isCameraAngleFor (imageSet trio_item) = [None, None, Some 1]
   \<and> map isCameraAngleFor (imageSet (hd (handleExtendFromLastFrame frame_ok [trio_item] 1 0)))
       = [None, Some 0, None, Some 1]
   \<and> \<not> tree_ok (imageSet (hd (handleExtendFromLastFrame frame_ok [trio_item] 1 0)))
   \<and> map isCameraAngleFor (imageSet (the (only_item (handleConfirmAngleGeneration studio_backend
          [trio_item] (\<lambda>h. h) False 1 0 [''back'']))))
       = [None, Some 0, None, Some 2]
   \<and> tree_ok (imageSet (the (only_item (handleConfirmAngleGeneration studio_backend
          [trio_item] (\<lambda>h. h) False 1 0 [''back'']))))"
  by code_simp

subsection \<open>The operations that keep the tree shape\<close>

text \<open>
  Deletion of any set of indices keeps the tree shape, and so does the insertion of camera
  angles after a root.
\<close>

lemma tree_ok_iff:
  "tree_ok scenes \<longleftrightarrow>
     (\<forall>k<length scenes. \<forall>p. isCameraAngleFor (scenes ! k) = Some p \<longrightarrow>
        p < length scenes \<and> isCameraAngleFor (scenes ! p) = None)"
  by (simp add: tree_ok_def list_all_length split: option.split) blast

lemma kept_index:
  assumes "k < length (kept removed n)"
  shows "\<exists>i<n. i \<notin> set removed \<and> new_pos removed i = k"
proof -
  let ?i = "kept removed n ! k"
  have mem: "?i \<in> set (kept removed n)" using assms by simp
  then have i: "?i < n" "?i \<notin> set removed" by (simp_all add: kept_def)
  from kept_nth [OF i] have "new_pos removed ?i < length (kept removed n)"
    and "kept removed n ! new_pos removed ?i = ?i" by simp_all
  moreover have "distinct (kept removed n)" by (simp add: kept_def)
  ultimately have "new_pos removed ?i = k" using assms by (simp add: nth_eq_iff_index_eq)
  with i show ?thesis by blast
qed

lemma delete_keeps_tree:
  assumes al: "aligned item" and ok: "tree_ok (imageSet item)"
    and d: "delete_from_item removed item = Some item'"
  shows "tree_ok (imageSet item')"
  unfolding tree_ok_iff
proof (intro allI impI)
  fix k p
  assume k: "k < length (imageSet item')" and par: "isCameraAngleFor (imageSet item' ! k) = Some p"
  have len: "length (imageSet item') = length (kept removed (length (imageSet item)))"
    using delete_lengths [OF al d] by simp
  from kept_index [of k removed "length (imageSet item)"] k len
  obtain i where i: "i < length (imageSet item)" "i \<notin> set removed" and ki: "new_pos removed i = k"
    by auto
  from delete_positions [OF al d i] ki
  have e: "isCameraAngleFor (imageSet item' ! k)
      = (case isCameraAngleFor (imageSet item ! i) of
           None \<Rightarrow> None
         | Some q \<Rightarrow> if q \<in> set removed then None
                     else if q < length (imageSet item) then Some (new_pos removed q) else Some q)"
    by simp
  with par obtain q where q: "isCameraAngleFor (imageSet item ! i) = Some q" and qr: "q \<notin> set removed"
    by (auto split: option.splits if_splits)
  have qn: "q < length (imageSet item)" and qroot: "isCameraAngleFor (imageSet item ! q) = None"
    using ok [unfolded tree_ok_iff, rule_format, OF i(1) q] by simp_all
  from e par q qr qn have p: "p = new_pos removed q" by simp
  from delete_positions [OF al d qn qr] qroot
  show "p < length (imageSet item') \<and> isCameraAngleFor (imageSet item' ! p) = None"
    by (simp add: p)
qed

lemma insert_angles_keeps_tree:
  assumes ok: "tree_ok (imageSet item)" and r: "r < length (imageSet item)"
    and root: "isCameraAngleFor (imageSet item ! r) = None"
    and ins: "insert_angles r ns item = Some item'"
  shows "tree_ok (imageSet item')"
proof -
  let ?n = "length (imageSet item)" and ?m = "length ns"
  from insert_angles_nth [OF r, of ns] ins have
    len: "length (imageSet item') = ?n + ?m"
    and fresh: "\<forall>j<?m. imageSet item' ! (r + 1 + j) = (ns ! j)\<lparr>isCameraAngleFor := Some r\<rparr>"
    and old: "\<forall>i<?n. i \<noteq> r \<longrightarrow>
           imageSet item' ! (if i < r then i else i + ?m) = bump_parent r ?m (imageSet item ! i)"
    and at: "imageSet item' ! r
         = (bump_parent r ?m (imageSet item ! r))\<lparr>isGeneratingAngles := Some False, error := None\<rparr>"
    by auto
  have atroot: "isCameraAngleFor (imageSet item' ! r) = None"
    using at root by (simp add: bump_parent_eq)
  have moved: "isCameraAngleFor (imageSet item' ! (if q > r then q + ?m else q)) = None"
    if "q < ?n" "isCameraAngleFor (imageSet item ! q) = None" for q
  proof (cases "q = r")
    case True
    then show ?thesis using atroot by simp
  next
    case False
    with old that(1) have "imageSet item' ! (if q < r then q else q + ?m)
        = bump_parent r ?m (imageSet item ! q)" by simp
    with False that(2) show ?thesis by (cases "q < r") (auto simp: bump_parent_eq)
  qed
  have oldpar: "p < ?n + ?m \<and> isCameraAngleFor (imageSet item' ! p) = None"
    if i: "i < ?n" and b: "isCameraAngleFor (bump_parent r ?m (imageSet item ! i)) = Some p" for i p
  proof -
    from b obtain q where q: "isCameraAngleFor (imageSet item ! i) = Some q"
      and p: "p = (if q > r then q + ?m else q)"
      by (auto simp: bump_parent_eq)
    have "q < ?n" "isCameraAngleFor (imageSet item ! q) = None"
      using ok [unfolded tree_ok_iff, rule_format, OF i q] by simp_all
    with moved [of q] p show ?thesis by (cases "q > r") simp_all
  qed
  show ?thesis
    unfolding tree_ok_iff
  proof (intro allI impI)
    fix k p
    assume k: "k < length (imageSet item')" and par: "isCameraAngleFor (imageSet item' ! k) = Some p"
    consider (before) "k < r" | (at) "k = r" | (new) "r < k" "k < r + 1 + ?m" | (after) "r + 1 + ?m \<le> k"
      by arith
    then show "p < length (imageSet item') \<and> isCameraAngleFor (imageSet item' ! p) = None"
    proof cases
      case before
      have "imageSet item' ! k = bump_parent r ?m (imageSet item ! k)"
        using old [rule_format, of k] before r by simp
      with par oldpar [of k p] before r show ?thesis by (simp add: len)
    next
      case at
      with par atroot show ?thesis by simp
    next
      case new
      define j where "j = k - (r + 1)"
      have j: "j < ?m" "k = r + 1 + j" using new by (simp_all add: j_def)
      with par fresh [rule_format, of j] have "p = r" by simp
      with atroot r show ?thesis by (simp add: len)
    next
      case after
      define i where "i = k - ?m"
      have i: "k = i + ?m" "r < i" using after by (simp_all add: i_def)
      with k have "i < ?n" by (simp add: len)
      then have "imageSet item' ! k = bump_parent r ?m (imageSet item ! i)"
        using old [rule_format, of i] i by simp
      with par oldpar [of i p] \<open>i < ?n\<close> show ?thesis by (simp add: len)
    qed
  qed
qed

end
